theory Spec2Isabelle
  imports Main
begin

section \<open>The Slack service of the operator (pkg/slack/service.go)\<close>

text \<open>
  The service talks to Slack through the client of the slack-go library. The client is
  not part of the repository, so it is a parameter of the model: a record with one field
  for each client method the service calls. A method takes the state of the remote
  platform (the type variable \<open>'w\<close>) and returns its answer together with the new remote
  state. An answer is a sum: \<open>Inl msg\<close> is a non-nil Go error whose \<open>Error()\<close> text is
  \<open>msg\<close>, \<open>Inr v\<close> is the value returned with a nil error.

  Every call the service makes is recorded, with its answer, in a trace, so that
  statements about which remote calls are made (and in which order) can be written down.
  The logger of the service has no influence on results or on remote calls and is left out.
  The functions modelled are those the properties below are about: the three attribute
  setters, \<open>GetUsersInChannel\<close>, \<open>InviteUsers\<close>, \<open>RemoveUsers\<close>, \<open>IsChannelUpdated\<close>,
  \<open>IsValidChannel\<close> and \<open>GetChannelByName\<close>.
\<close>

subsection \<open>Data of the Slack client and of the custom resource\<close>

record slack_Channel =
  Channel_ID :: string
  Channel_Name :: string
  Topic_Value :: string
  Purpose_Value :: string
  IsPrivate :: bool
  Members :: "string list"

record slack_User =
  User_ID :: string
  IsBot :: bool
  Profile_Email :: string

record ChannelSpec =
  Spec_Name :: string
  Spec_Users :: "string list"
  Spec_Description :: string
  Spec_Private :: bool
  Spec_Topic :: string

record Channel =
  Spec :: ChannelSpec
  Status_ID :: string

record GetUsersInConversationParameters =
  UP_ChannelID :: string
  UP_Cursor :: string
  UP_Limit :: int

record GetConversationsParameters =
  CP_Cursor :: string
  CP_ExcludeArchived :: string
  CP_Limit :: int
  CP_Types :: "string list"

text \<open>
  Errors returned by the service. \<open>RemoteError msg\<close> is an error of the client handed
  on unchanged; \<open>Errorf fmt\<close> is the error built by \<open>fmt.Errorf(fmt)\<close> with no further
  argument.
\<close>

datatype error = RemoteError string | Errorf string

definition ChannelAlreadyExistsError :: string where
  "ChannelAlreadyExistsError = ''A channel with the same name already exists''"

subsection \<open>The client and the trace of calls\<close>

record 'w Client =
  GetConversationInfo :: "string \<Rightarrow> bool \<Rightarrow> 'w \<Rightarrow> (string + slack_Channel) \<times> 'w"
  SetPurposeOfConversation :: "string \<Rightarrow> string \<Rightarrow> 'w \<Rightarrow> (string + slack_Channel) \<times> 'w"
  SetTopicOfConversation :: "string \<Rightarrow> string \<Rightarrow> 'w \<Rightarrow> (string + slack_Channel) \<times> 'w"
  RenameConversation :: "string \<Rightarrow> string \<Rightarrow> 'w \<Rightarrow> (string + slack_Channel) \<times> 'w"
  GetUsersInConversation ::
    "GetUsersInConversationParameters \<Rightarrow> 'w \<Rightarrow> (string + string list \<times> string) \<times> 'w"
  GetUserByEmail :: "string \<Rightarrow> 'w \<Rightarrow> (string + slack_User) \<times> 'w"
  InviteUsersToConversation :: "string \<Rightarrow> string \<Rightarrow> 'w \<Rightarrow> (string + slack_Channel) \<times> 'w"
  GetUserInfo :: "string \<Rightarrow> 'w \<Rightarrow> (string + slack_User) \<times> 'w"
  KickUserFromConversation :: "string \<Rightarrow> string \<Rightarrow> 'w \<Rightarrow> string option \<times> 'w"
  GetConversations ::
    "GetConversationsParameters \<Rightarrow> 'w \<Rightarrow> (string + slack_Channel list \<times> string) \<times> 'w"

text \<open>
  The service: its client, and \<open>html.UnescapeString\<close> of the Go standard library, which
  is a parameter as well.
\<close>

record 'w SlackService =
  api :: "'w Client"
  UnescapeString :: "string \<Rightarrow> string"

datatype call =
    GetConversationInfo_call string bool
  | SetPurposeOfConversation_call string string
  | SetTopicOfConversation_call string string
  | RenameConversation_call string string
  | GetUsersInConversation_call GetUsersInConversationParameters
  | GetUserByEmail_call string
  | InviteUsersToConversation_call string string
  | GetUserInfo_call string
  | KickUserFromConversation_call string string
  | GetConversations_call GetConversationsParameters

datatype response =
    Failed string
  | Done
  | Channel_response slack_Channel
  | User_response slack_User
  | Users_response "string list" string
  | Channels_response "slack_Channel list" string

type_synonym event = "call \<times> response"

record 'w state =
  world :: 'w
  calls :: "event list"

definition channel_answer :: "string + slack_Channel \<Rightarrow> response" where
  "channel_answer r = (case r of Inl e \<Rightarrow> Failed e | Inr c \<Rightarrow> Channel_response c)"

definition user_answer :: "string + slack_User \<Rightarrow> response" where
  "user_answer r = (case r of Inl e \<Rightarrow> Failed e | Inr u \<Rightarrow> User_response u)"

definition users_answer :: "string + string list \<times> string \<Rightarrow> response" where
  "users_answer r = (case r of Inl e \<Rightarrow> Failed e | Inr (ids, cur) \<Rightarrow> Users_response ids cur)"

definition channels_answer :: "string + slack_Channel list \<times> string \<Rightarrow> response" where
  "channels_answer r =
     (case r of Inl e \<Rightarrow> Failed e | Inr (chs, cur) \<Rightarrow> Channels_response chs cur)"

definition error_answer :: "string option \<Rightarrow> response" where
  "error_answer r = (case r of Some e \<Rightarrow> Failed e | None \<Rightarrow> Done)"

text \<open>One remote call: run the client method on the remote state and record the event.\<close>

definition perform ::
  "call \<Rightarrow> ('r \<Rightarrow> response) \<Rightarrow> ('w \<Rightarrow> 'r \<times> 'w) \<Rightarrow> 'w state \<Rightarrow> 'r \<times> 'w state" where
  "perform c answer m s =
     (case m (world s) of (r, w') \<Rightarrow> (r, \<lparr>world = w', calls = calls s @ [(c, answer r)]\<rparr>))"

definition api_GetConversationInfo ::
  "'w SlackService \<Rightarrow> string \<Rightarrow> bool \<Rightarrow> 'w state \<Rightarrow> (string + slack_Channel) \<times> 'w state" where
  "api_GetConversationInfo svc channelID loc =
     perform (GetConversationInfo_call channelID loc) channel_answer
       (GetConversationInfo (api svc) channelID loc)"

definition api_SetPurposeOfConversation ::
  "'w SlackService \<Rightarrow> string \<Rightarrow> string \<Rightarrow> 'w state \<Rightarrow> (string + slack_Channel) \<times> 'w state" where
  "api_SetPurposeOfConversation svc channelID purpose =
     perform (SetPurposeOfConversation_call channelID purpose) channel_answer
       (SetPurposeOfConversation (api svc) channelID purpose)"

definition api_SetTopicOfConversation ::
  "'w SlackService \<Rightarrow> string \<Rightarrow> string \<Rightarrow> 'w state \<Rightarrow> (string + slack_Channel) \<times> 'w state" where
  "api_SetTopicOfConversation svc channelID topic =
     perform (SetTopicOfConversation_call channelID topic) channel_answer
       (SetTopicOfConversation (api svc) channelID topic)"

definition api_RenameConversation ::
  "'w SlackService \<Rightarrow> string \<Rightarrow> string \<Rightarrow> 'w state \<Rightarrow> (string + slack_Channel) \<times> 'w state" where
  "api_RenameConversation svc channelID newName =
     perform (RenameConversation_call channelID newName) channel_answer
       (RenameConversation (api svc) channelID newName)"

definition api_GetUsersInConversation ::
  "'w SlackService \<Rightarrow> GetUsersInConversationParameters \<Rightarrow> 'w state
     \<Rightarrow> (string + string list \<times> string) \<times> 'w state" where
  "api_GetUsersInConversation svc params =
     perform (GetUsersInConversation_call params) users_answer
       (GetUsersInConversation (api svc) params)"

definition api_GetUserByEmail ::
  "'w SlackService \<Rightarrow> string \<Rightarrow> 'w state \<Rightarrow> (string + slack_User) \<times> 'w state" where
  "api_GetUserByEmail svc email =
     perform (GetUserByEmail_call email) user_answer (GetUserByEmail (api svc) email)"

definition api_InviteUsersToConversation ::
  "'w SlackService \<Rightarrow> string \<Rightarrow> string \<Rightarrow> 'w state \<Rightarrow> (string + slack_Channel) \<times> 'w state" where
  "api_InviteUsersToConversation svc channelID userID =
     perform (InviteUsersToConversation_call channelID userID) channel_answer
       (InviteUsersToConversation (api svc) channelID userID)"

definition api_GetUserInfo ::
  "'w SlackService \<Rightarrow> string \<Rightarrow> 'w state \<Rightarrow> (string + slack_User) \<times> 'w state" where
  "api_GetUserInfo svc userID =
     perform (GetUserInfo_call userID) user_answer (GetUserInfo (api svc) userID)"

definition api_KickUserFromConversation ::
  "'w SlackService \<Rightarrow> string \<Rightarrow> string \<Rightarrow> 'w state \<Rightarrow> string option \<times> 'w state" where
  "api_KickUserFromConversation svc channelID userID =
     perform (KickUserFromConversation_call channelID userID) error_answer
       (KickUserFromConversation (api svc) channelID userID)"

definition api_GetConversations ::
  "'w SlackService \<Rightarrow> GetConversationsParameters \<Rightarrow> 'w state
     \<Rightarrow> (string + slack_Channel list \<times> string) \<times> 'w state" where
  "api_GetConversations svc params =
     perform (GetConversations_call params) channels_answer
       (GetConversations (api svc) params)"

subsection \<open>Attribute setters: read, compare, write\<close>

definition SetDescription ::
  "'w SlackService \<Rightarrow> string \<Rightarrow> string \<Rightarrow> 'w state \<Rightarrow> (error + slack_Channel) \<times> 'w state" where
  "SetDescription svc channelID description s =
     (case api_GetConversationInfo svc channelID False s of
        (Inl err, s1) \<Rightarrow> (Inl (RemoteError err), s1)
      | (Inr channel, s1) \<Rightarrow>
          if UnescapeString svc (Purpose_Value channel) = description then (Inr channel, s1)
          else (case api_SetPurposeOfConversation svc channelID description s1 of
                  (Inl err, s2) \<Rightarrow> (Inl (RemoteError err), s2)
                | (Inr channel', s2) \<Rightarrow> (Inr channel', s2)))"

definition SetTopic ::
  "'w SlackService \<Rightarrow> string \<Rightarrow> string \<Rightarrow> 'w state \<Rightarrow> (error + slack_Channel) \<times> 'w state" where
  "SetTopic svc channelID topic s =
     (case api_GetConversationInfo svc channelID False s of
        (Inl err, s1) \<Rightarrow> (Inl (RemoteError err), s1)
      | (Inr channel, s1) \<Rightarrow>
          if UnescapeString svc (Topic_Value channel) = topic then (Inr channel, s1)
          else (case api_SetTopicOfConversation svc channelID topic s1 of
                  (Inl err, s2) \<Rightarrow> (Inl (RemoteError err), s2)
                | (Inr channel', s2) \<Rightarrow> (Inr channel', s2)))"

definition RenameChannel ::
  "'w SlackService \<Rightarrow> string \<Rightarrow> string \<Rightarrow> 'w state \<Rightarrow> (error + slack_Channel) \<times> 'w state" where
  "RenameChannel svc channelID newName s =
     (case api_GetConversationInfo svc channelID False s of
        (Inl err, s1) \<Rightarrow> (Inl (RemoteError err), s1)
      | (Inr channel, s1) \<Rightarrow>
          if UnescapeString svc (Channel_Name channel) = newName then (Inr channel, s1)
          else (case api_RenameConversation svc channelID newName s1 of
                  (Inl err, s2) \<Rightarrow> (Inl (RemoteError err), s2)
                | (Inr channel', s2) \<Rightarrow> (Inr channel', s2)))"

subsection \<open>Membership\<close>

definition GetUsersInChannel ::
  "'w SlackService \<Rightarrow> string \<Rightarrow> 'w state \<Rightarrow> (error + string list) \<times> 'w state" where
  "GetUsersInChannel svc channelID s =
     (case api_GetUsersInConversation svc
             \<lparr>UP_ChannelID = channelID, UP_Cursor = [], UP_Limit = 100000\<rparr> s of
        (Inl err, s1) \<Rightarrow> (Inl (RemoteError err), s1)
      | (Inr (userIDs, nextCursor), s1) \<Rightarrow> (Inr userIDs, s1))"

text \<open>The loop over \<open>userEmails\<close>, with the error list built so far.\<close>

fun InviteUsers_loop ::
  "'w SlackService \<Rightarrow> string \<Rightarrow> string list \<Rightarrow> error list \<Rightarrow> 'w state
     \<Rightarrow> error list \<times> 'w state" where
  "InviteUsers_loop svc channelID [] errorlist s = (errorlist, s)"
| "InviteUsers_loop svc channelID (email # rest) errorlist s =
     (case api_GetUserByEmail svc email s of
        (Inl err, s1) \<Rightarrow>
          InviteUsers_loop svc channelID rest
            (errorlist @ [Errorf (''Error fetching user by Email '' @ email)]) s1
      | (Inr user, s1) \<Rightarrow>
          (case api_InviteUsersToConversation svc channelID (User_ID user) s1 of
             (Inl err, s2) \<Rightarrow>
               if err \<noteq> ''already_in_channel'' \<and> err \<noteq> ''cant_invite_self''
               then InviteUsers_loop svc channelID rest (errorlist @ [RemoteError err]) s2
               else InviteUsers_loop svc channelID rest errorlist s2
           | (Inr ch, s2) \<Rightarrow> InviteUsers_loop svc channelID rest errorlist s2))"

definition InviteUsers ::
  "'w SlackService \<Rightarrow> string \<Rightarrow> string list \<Rightarrow> 'w state \<Rightarrow> error list \<times> 'w state" where
  "InviteUsers svc channelID userEmails s = InviteUsers_loop svc channelID userEmails [] s"

text \<open>
  The inner loops that set \<open>found\<close>: over the desired emails (for a member's email) and
  over the channel's user IDs (for a resolved user's ID).
\<close>

fun found_in :: "string list \<Rightarrow> string \<Rightarrow> bool" where
  "found_in [] x = False"
| "found_in (y # ys) x = (if y = x then True else found_in ys x)"

fun RemoveUsers_loop ::
  "'w SlackService \<Rightarrow> string \<Rightarrow> string list \<Rightarrow> string list \<Rightarrow> 'w state
     \<Rightarrow> error option \<times> 'w state" where
  "RemoveUsers_loop svc channelID userEmails [] s = (None, s)"
| "RemoveUsers_loop svc channelID userEmails (userId # rest) s =
     (case api_GetUserInfo svc userId s of
        (Inl err, s1) \<Rightarrow> (Some (RemoteError err), s1)
      | (Inr user, s1) \<Rightarrow>
          if \<not> IsBot user then
            if \<not> found_in userEmails (Profile_Email user) then
              (case api_KickUserFromConversation svc channelID (User_ID user) s1 of
                 (Some err, s2) \<Rightarrow> (Some (RemoteError err), s2)
               | (None, s2) \<Rightarrow> RemoveUsers_loop svc channelID userEmails rest s2)
            else RemoveUsers_loop svc channelID userEmails rest s1
          else RemoveUsers_loop svc channelID userEmails rest s1)"

definition RemoveUsers ::
  "'w SlackService \<Rightarrow> string \<Rightarrow> string list \<Rightarrow> 'w state \<Rightarrow> error option \<times> 'w state" where
  "RemoveUsers svc channelID userEmails s =
     (case GetUsersInChannel svc channelID s of
        (Inl err, s1) \<Rightarrow> (Some err, s1)
      | (Inr channelUserIDs, s1) \<Rightarrow> RemoveUsers_loop svc channelID userEmails channelUserIDs s1)"

subsection \<open>Drift detection and validation\<close>

text \<open>
  \<open>IsChannelUpdated\<close> returns a Go pair \<open>(bool, error)\<close>; the model keeps the pair, with
  \<open>None\<close> for the nil error. The two membership loops are functions of their own.
\<close>

fun IsChannelUpdated_added ::
  "'w SlackService \<Rightarrow> string list \<Rightarrow> string list \<Rightarrow> 'w state
     \<Rightarrow> (bool \<times> error option) option \<times> 'w state" where
  "IsChannelUpdated_added svc channelUserIDs [] s = (None, s)"
| "IsChannelUpdated_added svc channelUserIDs (email # rest) s =
     (case api_GetUserByEmail svc email s of
        (Inl err, s1) \<Rightarrow> (Some (False, Some (RemoteError err)), s1)
      | (Inr user, s1) \<Rightarrow>
          if \<not> found_in channelUserIDs (User_ID user) then (Some (True, None), s1)
          else IsChannelUpdated_added svc channelUserIDs rest s1)"

fun IsChannelUpdated_removed ::
  "'w SlackService \<Rightarrow> string list \<Rightarrow> string list \<Rightarrow> 'w state
     \<Rightarrow> (bool \<times> error option) option \<times> 'w state" where
  "IsChannelUpdated_removed svc userEmails [] s = (None, s)"
| "IsChannelUpdated_removed svc userEmails (userId # rest) s =
     (case api_GetUserInfo svc userId s of
        (Inl err, s1) \<Rightarrow> (Some (False, Some (RemoteError err)), s1)
      | (Inr user, s1) \<Rightarrow>
          if \<not> IsBot user then
            if \<not> found_in userEmails (Profile_Email user) then (Some (True, None), s1)
            else IsChannelUpdated_removed svc userEmails rest s1
          else IsChannelUpdated_removed svc userEmails rest s1)"

definition IsChannelUpdated ::
  "'w SlackService \<Rightarrow> Channel \<Rightarrow> 'w state \<Rightarrow> (bool \<times> error option) \<times> 'w state" where
  "IsChannelUpdated svc channel s =
     (let channelID = Status_ID channel;
          name = Spec_Name (Spec channel);
          topic = Spec_Topic (Spec channel);
          description = Spec_Description (Spec channel);
          userEmails = Spec_Users (Spec channel)
      in case api_GetConversationInfo svc (Status_ID channel) False s of
           (Inl err, s1) \<Rightarrow> ((False, Some (RemoteError err)), s1)
         | (Inr existingChannel, s1) \<Rightarrow>
             if UnescapeString svc (Channel_Name existingChannel) \<noteq> name then ((True, None), s1)
             else if UnescapeString svc (Topic_Value existingChannel) \<noteq> topic
               then ((True, None), s1)
             else if UnescapeString svc (Purpose_Value existingChannel) \<noteq> description
               then ((True, None), s1)
             else (case GetUsersInChannel svc channelID s1 of
                     (Inl err, s2) \<Rightarrow> ((False, Some err), s2)
                   | (Inr channelUserIDs, s2) \<Rightarrow>
                       (case IsChannelUpdated_added svc channelUserIDs userEmails s2 of
                          (Some ret, s3) \<Rightarrow> (ret, s3)
                        | (None, s3) \<Rightarrow>
                            (case IsChannelUpdated_removed svc userEmails channelUserIDs s3 of
                               (Some ret, s4) \<Rightarrow> (ret, s4)
                             | (None, s4) \<Rightarrow> ((False, None), s4)))))"

definition IsValidChannel :: "Channel \<Rightarrow> error option" where
  "IsValidChannel channel =
     (if length (Spec_Users (Spec channel)) < 1 then Some (Errorf ''Users can not be empty'')
      else None)"

subsection \<open>Search by name\<close>

text \<open>The scan of one page: the first channel of the page with the name.\<close>

fun scan_page :: "string \<Rightarrow> slack_Channel list \<Rightarrow> slack_Channel option" where
  "scan_page name [] = None"
| "scan_page name (channel # rest) =
     (if Channel_Name channel = name then Some channel else scan_page name rest)"

definition GetConversations_params :: "string \<Rightarrow> GetConversationsParameters" where
  "GetConversations_params cursor =
     \<lparr>CP_Cursor = cursor, CP_ExcludeArchived = ''false'', CP_Limit = 200,
      CP_Types = [''private_channel'', ''public_channel'']\<rparr>"

text \<open>
  The \<open>for\<close> loop has no bound of its own: it ends when the remote platform answers with
  an error, a match or an empty cursor. \<open>None\<close> is the loop that never ends.
\<close>

partial_function (option) GetChannelByName_loop ::
  "'w SlackService \<Rightarrow> string \<Rightarrow> string \<Rightarrow> 'w state
     \<Rightarrow> ((error + slack_Channel) \<times> 'w state) option" where
  "GetChannelByName_loop svc name cursor s =
     (case api_GetConversations svc (GetConversations_params cursor) s of
        (Inl err, s1) \<Rightarrow> Some (Inl (RemoteError err), s1)
      | (Inr (channels, nextCursor), s1) \<Rightarrow>
          (case scan_page name channels of
             Some channel \<Rightarrow> Some (Inr channel, s1)
           | None \<Rightarrow>
               if nextCursor = [] then Some (Inl (Errorf ChannelAlreadyExistsError), s1)
               else GetChannelByName_loop svc name nextCursor s1))"

declare GetChannelByName_loop.simps [code]

definition GetChannelByName ::
  "'w SlackService \<Rightarrow> string \<Rightarrow> 'w state \<Rightarrow> ((error + slack_Channel) \<times> 'w state) option" where
  "GetChannelByName svc name s = GetChannelByName_loop svc name [] s"


section \<open>Notions used to state the properties\<close>

text \<open>The events recorded between two states of a run.\<close>

definition issued :: "'w state \<Rightarrow> 'w state \<Rightarrow> event list" where
  "issued s s' = drop (length (calls s)) (calls s')"

definition failed :: "event \<Rightarrow> bool" where
  "failed ev = (case snd ev of Failed e \<Rightarrow> True | _ \<Rightarrow> False)"

text \<open>
  A trace is fail-fast for a returned error when no call fails if no error is returned,
  and otherwise exactly the last call fails, with the returned error.
\<close>

definition fail_fast :: "event list \<Rightarrow> error option \<Rightarrow> bool" where
  "fail_fast evs r =
     (case r of None \<Rightarrow> \<forall>ev \<in> set evs. \<not> failed ev
      | Some err \<Rightarrow> \<exists>pre c e. evs = pre @ [(c, Failed e)] \<and> err = RemoteError e \<and>
                       (\<forall>ev \<in> set pre. \<not> failed ev))"

text \<open>
  Every kick of a trace comes right after the lookup of the kicked user, and the lookup
  showed a user that is no bot and whose email is not among the desired ones.
\<close>

definition kicks_justified :: "string \<Rightarrow> string list \<Rightarrow> event list \<Rightarrow> bool" where
  "kicks_justified cid emails evs =
     (\<forall>pre c u resp post. evs = pre @ (KickUserFromConversation_call c u, resp) # post \<longrightarrow>
        (\<exists>pre' m usr. pre = pre' @ [(GetUserInfo_call m, User_response usr)] \<and>
           \<not> IsBot usr \<and> User_ID usr = u \<and> c = cid \<and> Profile_Email usr \<notin> set emails))"

text \<open>
  The lookup of a member that is no bot and whose email is not among the desired ones.
\<close>

definition extraneous_lookup :: "string list \<Rightarrow> event \<Rightarrow> bool" where
  "extraneous_lookup emails ev =
     (\<exists>m usr. ev = (GetUserInfo_call m, User_response usr) \<and> \<not> IsBot usr \<and>
        Profile_Email usr \<notin> set emails)"

text \<open>
  For \<open>InviteUsers\<close>: the emails looked up in a trace, in order; the errors that the
  failed calls of a trace put on the error list (one for each failed lookup by email, one
  for each failed invitation whose error is neither \<open>already_in_channel\<close> nor
  \<open>cant_invite_self\<close>); and the events that put nothing on the list.
\<close>

fun lookups :: "event list \<Rightarrow> string list" where
  "lookups [] = []"
| "lookups ((GetUserByEmail_call email, r) # evs) = email # lookups evs"
| "lookups (ev # evs) = lookups evs"

fun recorded_errors :: "event list \<Rightarrow> error list" where
  "recorded_errors [] = []"
| "recorded_errors ((GetUserByEmail_call email, Failed e) # evs) =
     Errorf (''Error fetching user by Email '' @ email) # recorded_errors evs"
| "recorded_errors ((InviteUsersToConversation_call c u, Failed e) # evs) =
     (if e = ''already_in_channel'' \<or> e = ''cant_invite_self'' then recorded_errors evs
      else RemoteError e # recorded_errors evs)"
| "recorded_errors (ev # evs) = recorded_errors evs"

definition tolerated :: "event \<Rightarrow> bool" where
  "tolerated ev =
     (case ev of
        (InviteUsersToConversation_call c u, Failed e) \<Rightarrow>
          e = ''already_in_channel'' \<or> e = ''cant_invite_self''
      | (GetUserByEmail_call email, Failed e) \<Rightarrow> False
      | _ \<Rightarrow> True)"

text \<open>
  For \<open>GetChannelByName\<close>: a remote collection of channels is a list of pages, each with its
  channels and the cursor of the next page. The platform serves the collection from a
  cursor when, asked page after page, it answers with these pages; only the last page
  has the empty next cursor. \<open>visited\<close> counts the pages up to and including the first one
  that holds a channel with the name (all pages when there is none), \<open>page_events\<close> are the
  requests for consecutive pages with their answers, and \<open>search_result\<close> is the first
  channel with the name in page order, or the error of the search when there is none.
\<close>

fun serves_pages ::
  "'w Client \<Rightarrow> string \<Rightarrow> (slack_Channel list \<times> string) list \<Rightarrow> 'w \<Rightarrow> bool" where
  "serves_pages cl cursor [] w = False"
| "serves_pages cl cursor ((channels, next) # rest) w =
     (case GetConversations cl (GetConversations_params cursor) w of
        (Inl err, w') \<Rightarrow> False
      | (Inr (channels', next'), w') \<Rightarrow>
          channels' = channels \<and> next' = next \<and>
          (if rest = [] then next = [] else next \<noteq> [] \<and> serves_pages cl next rest w'))"

fun visited :: "string \<Rightarrow> (slack_Channel list \<times> string) list \<Rightarrow> nat" where
  "visited name [] = 0"
| "visited name ((channels, next) # rest) =
     (if scan_page name channels \<noteq> None then 1 else Suc (visited name rest))"

fun page_events :: "string \<Rightarrow> (slack_Channel list \<times> string) list \<Rightarrow> event list" where
  "page_events cursor [] = []"
| "page_events cursor ((channels, next) # rest) =
     (GetConversations_call (GetConversations_params cursor), Channels_response channels next) #
     page_events next rest"

definition search_result :: "string \<Rightarrow> (slack_Channel list \<times> string) list \<Rightarrow> error + slack_Channel" where
  "search_result name pages =
     (case scan_page name (concat (map fst pages)) of
        Some channel \<Rightarrow> Inr channel
      | None \<Rightarrow> Inl (Errorf ChannelAlreadyExistsError))"

section \<open>An example remote platform\<close>

text \<open>
  A small remote platform for the examples. Its state never changes (the remote state is
  \<open>unit\<close>). \<open>demo_unescape\<close> stands in for \<open>html.UnescapeString\<close> in the examples only: it
  decodes the entity \<open>&amp;\<close> and nothing else.
\<close>

fun demo_unescape :: "string \<Rightarrow> string" where
  "demo_unescape [] = []"
| "demo_unescape (c # cs) =
     (if take 5 (c # cs) = ''&amp;'' then CHR ''&'' # demo_unescape (drop 4 cs)
      else c # demo_unescape cs)"

definition team_x :: slack_Channel where
  "team_x = \<lparr>Channel_ID = ''C1'', Channel_Name = ''team-x'', Topic_Value = ''Launch &amp;co'',
     Purpose_Value = [], IsPrivate = True, Members = [''U1'', ''U2'', ''U3'']\<rparr>"

definition general :: slack_Channel where
  "general = \<lparr>Channel_ID = ''C7'', Channel_Name = ''general'', Topic_Value = [],
     Purpose_Value = [], IsPrivate = False, Members = []\<rparr>"

definition random :: slack_Channel where
  "random = \<lparr>Channel_ID = ''C8'', Channel_Name = ''random'', Topic_Value = [],
     Purpose_Value = [], IsPrivate = False, Members = []\<rparr>"

definition slack_user :: "string \<Rightarrow> string \<Rightarrow> bool \<Rightarrow> slack_User" where
  "slack_user uid email b = \<lparr>User_ID = uid, IsBot = b, Profile_Email = email\<rparr>"

definition demo_client :: "unit Client" where
  "demo_client =
     \<lparr>GetConversationInfo = (\<lambda>channelID loc w.
        (if channelID = ''C0'' then Inl ''channel_not_found'' else Inr team_x, w)),
      SetPurposeOfConversation = (\<lambda>channelID purpose w.
        (Inr (team_x\<lparr>Purpose_Value := purpose\<rparr>), w)),
      SetTopicOfConversation = (\<lambda>channelID topic w.
        (Inr (team_x\<lparr>Topic_Value := topic\<rparr>), w)),
      RenameConversation = (\<lambda>channelID newName w.
        (Inr (team_x\<lparr>Channel_Name := newName\<rparr>), w)),
      GetUsersInConversation = (\<lambda>params w.
        (if UP_ChannelID params = ''C1'' then Inr ([''U1'', ''U2'', ''U3''], [])
         else if UP_ChannelID params = ''C2'' then Inr ([''B1'', ''U1'', ''U2''], [])
         else if UP_ChannelID params = ''C3'' then Inr ([''U2'', ''U9'', ''U3''], [])
         else if UP_ChannelID params = ''C4''
           then (if UP_Cursor params = [] then Inr ([''U1''], ''p2'') else Inr ([''U2''], []))
         else Inl ''channel_not_found'', w)),
      GetUserByEmail = (\<lambda>email w.
        (if email = ''a'' then Inr (slack_user ''U1'' ''a'' False)
         else if email = ''c'' then Inr (slack_user ''U3'' ''c'' False)
         else Inl ''users_not_found'', w)),
      InviteUsersToConversation = (\<lambda>channelID userID w.
        (if userID = ''U3'' then Inl ''already_in_channel'' else Inr team_x, w)),
      GetUserInfo = (\<lambda>userID w.
        (if userID = ''U1'' then Inr (slack_user ''U1'' ''a'' False)
         else if userID = ''U2'' then Inr (slack_user ''U2'' ''b'' False)
         else if userID = ''U3'' then Inr (slack_user ''U3'' ''c'' False)
         else if userID = ''B1'' then Inr (slack_user ''B1'' ''bot'' True)
         else Inl ''user_not_found'', w)),
      KickUserFromConversation = (\<lambda>channelID userID w.
        (if userID = ''U1'' then Some ''cant_kick_from_general'' else None, w)),
      GetConversations = (\<lambda>params w.
        (if CP_Cursor params = [] then Inr ([general], ''p2'')
         else if CP_Cursor params = ''p2'' then Inr ([random, team_x], ''p3'')
         else if CP_Cursor params = ''p3'' then Inr ([], [])
         else Inl ''invalid_cursor'', w))\<rparr>"

definition demo :: "unit SlackService" where
  "demo = \<lparr>api = demo_client, UnescapeString = demo_unescape\<rparr>"

definition start :: "unit state" where
  "start = \<lparr>world = (), calls = []\<rparr>"

definition list_call :: "string \<Rightarrow> call" where
  "list_call channelID =
     GetUsersInConversation_call \<lparr>UP_ChannelID = channelID, UP_Cursor = [], UP_Limit = 100000\<rparr>"

text \<open>
  A desired channel whose topic and description agree with those of \<open>team_x\<close>.
\<close>

definition spec_of :: "string \<Rightarrow> string \<Rightarrow> string list \<Rightarrow> Channel" where
  "spec_of channelID name emails =
     \<lparr>Spec = \<lparr>Spec_Name = name, Spec_Users = emails, Spec_Description = [],
        Spec_Private = True, Spec_Topic = ''Launch &co''\<rparr>, Status_ID = channelID\<rparr>"

text \<open>The pages of channels that the example platform serves.\<close>

definition demo_pages :: "(slack_Channel list \<times> string) list" where
  "demo_pages = [([general], ''p2''), ([random, team_x], ''p3''), ([], [])]"

section \<open>Basic facts\<close>

lemmas api_defs = api_GetConversationInfo_def api_SetPurposeOfConversation_def
  api_SetTopicOfConversation_def api_RenameConversation_def api_GetUsersInConversation_def
  api_GetUserByEmail_def api_InviteUsersToConversation_def api_GetUserInfo_def
  api_KickUserFromConversation_def api_GetConversations_def

lemmas answer_defs = channel_answer_def user_answer_def users_answer_def channels_answer_def
  error_answer_def

lemmas demo_defs = demo_def demo_client_def start_def slack_user_def list_call_def issued_def
  perform_def

lemma perform_result:
  "perform c answer m s = (r, s') \<Longrightarrow>
     calls s' = calls s @ [(c, answer r)] \<and> m (world s) = (r, world s')"
  by (auto simp: perform_def split: prod.splits)

lemma found_in_set: "found_in xs x = (x \<in> set xs)"
  by (induction xs) auto

lemma issued_append: "calls s' = calls s @ evs \<Longrightarrow> issued s s' = evs"
  by (simp add: issued_def)

section \<open>Removal of members\<close>

lemma fail_fast_Cons: "\<not> failed ev \<Longrightarrow> fail_fast evs r \<Longrightarrow> fail_fast (ev # evs) r"
  by (cases r) (auto simp: fail_fast_def Cons_eq_append_conv)

lemma fail_fast_decompose:
  assumes "fail_fast evs r" and "evs = pre @ (c, Failed e) # post"
  shows "post = [] \<and> r = Some (RemoteError e)"
proof (cases r)
  case None
  with assms show ?thesis by (auto simp: fail_fast_def failed_def)
next
  case (Some err)
  with assms obtain pre' c' e' where d: "pre @ (c, Failed e) # post = pre' @ [(c', Failed e')]"
    and err: "err = RemoteError e'" and ok: "\<forall>ev \<in> set pre'. \<not> failed ev"
    by (auto simp: fail_fast_def)
  have "post = []"
  proof (rule ccontr)
    assume "post \<noteq> []"
    then obtain post' x where "post = post' @ [x]" by (metis rev_exhaust)
    with d have "pre' = pre @ (c, Failed e) # post'" by simp
    with ok show False by (auto simp: failed_def)
  qed
  with d err Some show ?thesis by simp
qed

lemma RemoveUsers_loop_step:
  assumes "RemoveUsers_loop svc cid emails (m # ms) s = (r, s')"
  obtains
    (lookup_failed) e where
      "calls s' = calls s @ [(GetUserInfo_call m, Failed e)]" "r = Some (RemoteError e)"
  | (kept) usr s1 where
      "calls s1 = calls s @ [(GetUserInfo_call m, User_response usr)]"
      "IsBot usr \<or> Profile_Email usr \<in> set emails"
      "RemoveUsers_loop svc cid emails ms s1 = (r, s')"
  | (kick_failed) usr e where
      "calls s' = calls s @ [(GetUserInfo_call m, User_response usr),
                             (KickUserFromConversation_call cid (User_ID usr), Failed e)]"
      "\<not> IsBot usr" "Profile_Email usr \<notin> set emails" "r = Some (RemoteError e)"
  | (kicked) usr s2 where
      "calls s2 = calls s @ [(GetUserInfo_call m, User_response usr),
                             (KickUserFromConversation_call cid (User_ID usr), Done)]"
      "\<not> IsBot usr" "Profile_Email usr \<notin> set emails"
      "RemoveUsers_loop svc cid emails ms s2 = (r, s')"
  using assms
  by (auto simp: api_defs user_answer_def error_answer_def found_in_set
      dest!: perform_result split: prod.splits sum.splits option.splits if_splits
      intro: that)

lemma RemoveUsers_loop_fail_fast:
  "RemoveUsers_loop svc cid emails ms s = (r, s') \<Longrightarrow>
     \<exists>evs. calls s' = calls s @ evs \<and> fail_fast evs r"
proof (induction ms arbitrary: s)
  case Nil
  then show ?case by (simp add: fail_fast_def)
next
  case (Cons m ms)
  from Cons.prems show ?case
  proof (cases rule: RemoveUsers_loop_step)
    case (lookup_failed e)
    then show ?thesis by (auto simp: fail_fast_def)
  next
    case (kept usr s1)
    from Cons.IH [OF kept(3)] obtain evs where "calls s' = calls s1 @ evs" "fail_fast evs r"
      by blast
    with kept(1) have "calls s' = calls s @ (GetUserInfo_call m, User_response usr) # evs"
      "fail_fast ((GetUserInfo_call m, User_response usr) # evs) r"
      by (auto intro: fail_fast_Cons simp: failed_def)
    then show ?thesis by blast
  next
    case (kick_failed usr e)
    have "fail_fast [(GetUserInfo_call m, User_response usr),
                     (KickUserFromConversation_call cid (User_ID usr), Failed e)] r"
      unfolding fail_fast_def kick_failed(4)
      by (auto simp: failed_def intro!: exI [of _ "[(GetUserInfo_call m, User_response usr)]"])
    with kick_failed(1) show ?thesis by blast
  next
    case (kicked usr s2)
    from Cons.IH [OF kicked(4)] obtain evs where "calls s' = calls s2 @ evs" "fail_fast evs r"
      by blast
    with kicked(1) have
      "calls s' = calls s @ (GetUserInfo_call m, User_response usr) #
                    (KickUserFromConversation_call cid (User_ID usr), Done) # evs"
      "fail_fast ((GetUserInfo_call m, User_response usr) #
                    (KickUserFromConversation_call cid (User_ID usr), Done) # evs) r"
      by (auto intro!: fail_fast_Cons simp: failed_def)
    then show ?thesis by blast
  qed
qed


lemma kicks_justified_lookup:
  assumes "kicks_justified cid emails evs"
  shows "kicks_justified cid emails ((GetUserInfo_call m, r) # evs)"
  unfolding kicks_justified_def
proof (intro allI impI)
  fix pre c u resp post
  assume d: "(GetUserInfo_call m, r) # evs = pre @ (KickUserFromConversation_call c u, resp) # post"
  then obtain pre2 where p: "pre = (GetUserInfo_call m, r) # pre2"
    and e: "evs = pre2 @ (KickUserFromConversation_call c u, resp) # post"
    by (cases pre) auto
  from assms e obtain pre' m' usr where
    "pre2 = pre' @ [(GetUserInfo_call m', User_response usr)]" "\<not> IsBot usr" "User_ID usr = u"
    "c = cid" "Profile_Email usr \<notin> set emails"
    unfolding kicks_justified_def by blast
  with p show "\<exists>pre' m usr. pre = pre' @ [(GetUserInfo_call m, User_response usr)] \<and>
           \<not> IsBot usr \<and> User_ID usr = u \<and> c = cid \<and> Profile_Email usr \<notin> set emails"
    by (intro exI [of _ "(GetUserInfo_call m, r) # pre'"] exI [of _ m'] exI [of _ usr]) simp
qed

lemma kicks_justified_kick:
  assumes "kicks_justified cid emails evs" and "\<not> IsBot usr" and "Profile_Email usr \<notin> set emails"
  shows "kicks_justified cid emails
           ((GetUserInfo_call m, User_response usr) #
            (KickUserFromConversation_call cid (User_ID usr), r) # evs)"
  unfolding kicks_justified_def
proof (intro allI impI)
  fix pre c u resp post
  assume d: "(GetUserInfo_call m, User_response usr) #
       (KickUserFromConversation_call cid (User_ID usr), r) # evs =
       pre @ (KickUserFromConversation_call c u, resp) # post"
  show "\<exists>pre' m usr. pre = pre' @ [(GetUserInfo_call m, User_response usr)] \<and>
           \<not> IsBot usr \<and> User_ID usr = u \<and> c = cid \<and> Profile_Email usr \<notin> set emails"
  proof (cases pre)
    case Nil
    with d show ?thesis by simp
  next
    case (Cons x pre1)
    note c1 = this
    show ?thesis
    proof (cases pre1)
      case Nil
      with c1 d assms show ?thesis
        by (intro exI [of _ "[]"] exI [of _ m] exI [of _ usr]) simp
    next
      case (Cons y pre2)
      with c1 d have e: "evs = pre2 @ (KickUserFromConversation_call c u, resp) # post"
        and p: "pre = (GetUserInfo_call m, User_response usr) #
                  (KickUserFromConversation_call cid (User_ID usr), r) # pre2"
        by auto
      from assms(1) e obtain pre' m' usr' where
        "pre2 = pre' @ [(GetUserInfo_call m', User_response usr')]" "\<not> IsBot usr'"
        "User_ID usr' = u" "c = cid" "Profile_Email usr' \<notin> set emails"
        unfolding kicks_justified_def by blast
      with p show ?thesis
        by (intro exI [of _ "(GetUserInfo_call m, User_response usr) #
                  (KickUserFromConversation_call cid (User_ID usr), r) # pre'"]
            exI [of _ m'] exI [of _ usr']) simp
    qed
  qed
qed

lemma RemoveUsers_loop_kicks:
  "RemoveUsers_loop svc cid emails ms s = (r, s') \<Longrightarrow>
     \<exists>evs. calls s' = calls s @ evs \<and> kicks_justified cid emails evs"
proof (induction ms arbitrary: s)
  case Nil
  then show ?case by (simp add: kicks_justified_def)
next
  case (Cons m ms)
  from Cons.prems show ?case
  proof (cases rule: RemoveUsers_loop_step)
    case (lookup_failed e)
    have "kicks_justified cid emails [(GetUserInfo_call m, Failed e)]"
      by (rule kicks_justified_lookup) (simp add: kicks_justified_def)
    with lookup_failed show ?thesis by blast
  next
    case (kept usr s1)
    from Cons.IH [OF kept(3)] obtain evs where
      "calls s' = calls s1 @ evs" "kicks_justified cid emails evs"
      by blast
    with kept(1) have "calls s' = calls s @ (GetUserInfo_call m, User_response usr) # evs"
      "kicks_justified cid emails ((GetUserInfo_call m, User_response usr) # evs)"
      by (auto intro: kicks_justified_lookup)
    then show ?thesis by blast
  next
    case (kick_failed usr e)
    have "kicks_justified cid emails [(GetUserInfo_call m, User_response usr),
                     (KickUserFromConversation_call cid (User_ID usr), Failed e)]"
      by (rule kicks_justified_kick) (simp_all add: kicks_justified_def kick_failed)
    with kick_failed(1) show ?thesis by blast
  next
    case (kicked usr s2)
    from Cons.IH [OF kicked(4)] obtain evs where
      "calls s' = calls s2 @ evs" "kicks_justified cid emails evs"
      by blast
    with kicked have
      "calls s' = calls s @ (GetUserInfo_call m, User_response usr) #
                    (KickUserFromConversation_call cid (User_ID usr), Done) # evs"
      "kicks_justified cid emails ((GetUserInfo_call m, User_response usr) #
                    (KickUserFromConversation_call cid (User_ID usr), Done) # evs)"
      by (auto intro!: kicks_justified_kick)
    then show ?thesis by blast
  qed
qed

lemma RemoveUsers_cases:
  assumes "RemoveUsers svc cid emails s = (r, s')"
  obtains
    (list_failed) e where
      "calls s' = calls s @ [(GetUsersInConversation_call
          \<lparr>UP_ChannelID = cid, UP_Cursor = [], UP_Limit = 100000\<rparr>, Failed e)]"
      "r = Some (RemoteError e)"
  | (listed) ids cur s1 where
      "calls s1 = calls s @ [(GetUsersInConversation_call
          \<lparr>UP_ChannelID = cid, UP_Cursor = [], UP_Limit = 100000\<rparr>, Users_response ids cur)]"
      "RemoveUsers_loop svc cid emails ids s1 = (r, s')"
  using assms
  by (auto simp: RemoveUsers_def GetUsersInChannel_def api_defs users_answer_def
      dest!: perform_result split: prod.splits sum.splits intro: that)

lemma RemoveUsers_trace_fail_fast:
  "fail_fast (issued s (snd (RemoveUsers svc cid emails s))) (fst (RemoveUsers svc cid emails s))"
proof -
  obtain r s' where run: "RemoveUsers svc cid emails s = (r, s')" by fastforce
  then have "fail_fast (issued s s') r"
  proof (cases rule: RemoveUsers_cases)
    case (list_failed e)
    then show ?thesis by (auto simp: issued_append fail_fast_def)
  next
    case (listed ids cur s1)
    from RemoveUsers_loop_fail_fast [OF listed(2)] obtain evs where
      "calls s' = calls s1 @ evs" "fail_fast evs r" by blast
    with listed(1) show ?thesis
      by (auto simp: issued_def failed_def intro!: fail_fast_Cons)
  qed
  with run show ?thesis by simp
qed

text \<open>
  C3. \<open>RemoveUsers\<close> is fail-fast on removals: in every run, a kick that fails is the last
  remote call of the run (so nothing is attempted for any later member), and the error of
  that kick is what \<open>RemoveUsers\<close> returns.
\<close>

theorem RemoveUsers_fail_fast:
  assumes "issued s (snd (RemoveUsers svc channelID userEmails s)) =
             pre @ (KickUserFromConversation_call c u, Failed e) # post"
  shows "post = [] \<and> fst (RemoveUsers svc channelID userEmails s) = Some (RemoteError e)"
  using fail_fast_decompose [OF RemoveUsers_trace_fail_fast assms] .

text \<open>
  The members \<open>U1\<close>, \<open>U2\<close>, \<open>U3\<close> of channel \<open>C1\<close> are no bots and none of their emails is
  desired; the kick of \<open>U1\<close> fails. \<open>U2\<close> and \<open>U3\<close> are not even looked up.
\<close>

theorem RemoveUsers_fail_fast_witness:
  "issued start (snd (RemoveUsers demo ''C1'' [''d''] start)) =
     [(list_call ''C1'', Users_response [''U1'', ''U2'', ''U3''] []),
      (GetUserInfo_call ''U1'', User_response (slack_user ''U1'' ''a'' False))] @
     (KickUserFromConversation_call ''C1'' ''U1'', Failed ''cant_kick_from_general'') # [] \<and>
   fst (RemoveUsers demo ''C1'' [''d''] start) = Some (RemoteError ''cant_kick_from_general'')"
proof -
  have run: "issued start (snd (RemoveUsers demo ''C1'' [''d''] start)) =
     [(list_call ''C1'', Users_response [''U1'', ''U2'', ''U3''] []),
      (GetUserInfo_call ''U1'', User_response (slack_user ''U1'' ''a'' False))] @
     (KickUserFromConversation_call ''C1'' ''U1'', Failed ''cant_kick_from_general'') # []"
    by (simp add: RemoveUsers_def GetUsersInChannel_def api_defs answer_defs demo_defs)
  from RemoveUsers_fail_fast [OF run] run show ?thesis by simp
qed

section \<open>Drift detection\<close>

lemma fail_fast_NoneD: "fail_fast (ev # evs) None \<Longrightarrow> \<not> failed ev \<and> fail_fast evs None"
  by (simp add: fail_fast_def)

lemma fail_fast_append:
  "fail_fast evs1 None \<Longrightarrow> fail_fast evs2 r \<Longrightarrow> fail_fast (evs1 @ evs2) r"
  by (induction evs1) (auto dest!: fail_fast_NoneD intro: fail_fast_Cons)

lemma fail_fast_Nil: "fail_fast [] None"
  by (simp add: fail_fast_def)

lemma fail_fast_single: "fail_fast [(c, Failed e)] (Some (RemoteError e))"
  by (simp add: fail_fast_def)

lemma fail_fast_ok: "\<not> failed ev \<Longrightarrow> fail_fast [ev] None"
  by (simp add: fail_fast_def)

lemma IsChannelUpdated_added_step:
  assumes "IsChannelUpdated_added svc ids (email # rest) s = (r, s')"
  obtains
    (lookup_failed) e where
      "calls s' = calls s @ [(GetUserByEmail_call email, Failed e)]"
      "r = Some (False, Some (RemoteError e))"
  | (missing) usr where
      "calls s' = calls s @ [(GetUserByEmail_call email, User_response usr)]"
      "User_ID usr \<notin> set ids" "r = Some (True, None)"
  | (present) usr s1 where
      "calls s1 = calls s @ [(GetUserByEmail_call email, User_response usr)]"
      "User_ID usr \<in> set ids" "IsChannelUpdated_added svc ids rest s1 = (r, s')"
  using assms
  by (auto simp: api_defs user_answer_def found_in_set
      dest!: perform_result split: prod.splits sum.splits if_splits intro: that)

lemma IsChannelUpdated_removed_step:
  assumes "IsChannelUpdated_removed svc emails (m # ms) s = (r, s')"
  obtains
    (lookup_failed) e where
      "calls s' = calls s @ [(GetUserInfo_call m, Failed e)]"
      "r = Some (False, Some (RemoteError e))"
  | (extraneous) usr where
      "calls s' = calls s @ [(GetUserInfo_call m, User_response usr)]"
      "\<not> IsBot usr" "Profile_Email usr \<notin> set emails" "r = Some (True, None)"
  | (kept) usr s1 where
      "calls s1 = calls s @ [(GetUserInfo_call m, User_response usr)]"
      "IsBot usr \<or> Profile_Email usr \<in> set emails"
      "IsChannelUpdated_removed svc emails ms s1 = (r, s')"
  using assms
  by (auto simp: api_defs user_answer_def found_in_set
      dest!: perform_result split: prod.splits sum.splits if_splits intro: that)

lemma IsChannelUpdated_added_shape:
  "IsChannelUpdated_added svc ids emails s = (r, s') \<Longrightarrow>
     r = None \<or> r = Some (True, None) \<or> (\<exists>e. r = Some (False, Some (RemoteError e)))"
proof (induction emails arbitrary: s)
  case Nil
  then show ?case by simp
next
  case (Cons email rest)
  from Cons.prems show ?case
    by (cases rule: IsChannelUpdated_added_step) (simp_all add: Cons.IH)
qed

lemma IsChannelUpdated_removed_shape:
  "IsChannelUpdated_removed svc emails ms s = (r, s') \<Longrightarrow>
     r = None \<or> r = Some (True, None) \<or> (\<exists>e. r = Some (False, Some (RemoteError e)))"
proof (induction ms arbitrary: s)
  case Nil
  then show ?case by simp
next
  case (Cons m ms)
  from Cons.prems show ?case
    by (cases rule: IsChannelUpdated_removed_step) (simp_all add: Cons.IH)
qed

lemma IsChannelUpdated_added_trace:
  "IsChannelUpdated_added svc ids emails s = (r, s') \<Longrightarrow>
     \<exists>evs. calls s' = calls s @ evs \<and> fail_fast evs (Option.bind r snd) \<and>
       fst ` set evs \<subseteq> range GetUserByEmail_call \<and> (r \<noteq> None \<longrightarrow> evs \<noteq> [])"
proof (induction emails arbitrary: s)
  case Nil
  then show ?case by (simp add: fail_fast_Nil)
next
  case (Cons email rest)
  from Cons.prems show ?case
  proof (cases rule: IsChannelUpdated_added_step)
    case (lookup_failed e)
    then show ?thesis
      by (intro exI [of _ "[(GetUserByEmail_call email, Failed e)]"])
         (simp add: fail_fast_single)
  next
    case (missing usr)
    then show ?thesis
      by (intro exI [of _ "[(GetUserByEmail_call email, User_response usr)]"])
         (simp add: fail_fast_ok failed_def)
  next
    case (present usr s1)
    from Cons.IH [OF present(3)] obtain evs where e:
      "calls s' = calls s1 @ evs \<and> fail_fast evs (Option.bind r snd) \<and>
       fst ` set evs \<subseteq> range GetUserByEmail_call \<and> (r \<noteq> None \<longrightarrow> evs \<noteq> [])" ..
    have "fail_fast ((GetUserByEmail_call email, User_response usr) # evs) (Option.bind r snd)"
      using e by (intro fail_fast_Cons) (simp_all add: failed_def)
    with present(1) e show ?thesis
      by (intro exI [of _ "(GetUserByEmail_call email, User_response usr) # evs"]) simp
  qed
qed

lemma IsChannelUpdated_removed_trace:
  "IsChannelUpdated_removed svc emails ms s = (r, s') \<Longrightarrow>
     \<exists>evs. calls s' = calls s @ evs \<and> fail_fast evs (Option.bind r snd) \<and>
       (r = Some (True, None) \<longrightarrow> evs \<noteq> [] \<and> extraneous_lookup emails (last evs))"
proof (induction ms arbitrary: s)
  case Nil
  then show ?case by (simp add: fail_fast_Nil)
next
  case (Cons m ms)
  from Cons.prems show ?case
  proof (cases rule: IsChannelUpdated_removed_step)
    case (lookup_failed e)
    then show ?thesis
      by (intro exI [of _ "[(GetUserInfo_call m, Failed e)]"]) (simp add: fail_fast_single)
  next
    case (extraneous usr)
    then show ?thesis
      by (intro exI [of _ "[(GetUserInfo_call m, User_response usr)]"])
         (simp add: fail_fast_ok failed_def extraneous_lookup_def)
  next
    case (kept usr s1)
    from Cons.IH [OF kept(3)] obtain evs where e:
      "calls s' = calls s1 @ evs \<and> fail_fast evs (Option.bind r snd) \<and>
       (r = Some (True, None) \<longrightarrow> evs \<noteq> [] \<and> extraneous_lookup emails (last evs))" ..
    have "fail_fast ((GetUserInfo_call m, User_response usr) # evs) (Option.bind r snd)"
      using e by (intro fail_fast_Cons) (simp_all add: failed_def)
    with kept(1) e show ?thesis
      by (intro exI [of _ "(GetUserInfo_call m, User_response usr) # evs"]) simp
  qed
qed


lemma GetUsersInChannel_cases:
  assumes "GetUsersInChannel svc cid s = (r, s')"
  obtains
    (list_failed) e where
      "calls s' = calls s @ [(GetUsersInConversation_call
          \<lparr>UP_ChannelID = cid, UP_Cursor = [], UP_Limit = 100000\<rparr>, Failed e)]"
      "r = Inl (RemoteError e)"
  | (listed) ids cur where
      "calls s' = calls s @ [(GetUsersInConversation_call
          \<lparr>UP_ChannelID = cid, UP_Cursor = [], UP_Limit = 100000\<rparr>, Users_response ids cur)]"
      "r = Inr ids"
  using assms
  by (auto simp: GetUsersInChannel_def api_defs users_answer_def
      dest!: perform_result split: prod.splits sum.splits intro: that)

lemma api_GetConversationInfo_calls:
  "api_GetConversationInfo svc cid loc s = (a, s1) \<Longrightarrow>
     calls s1 = calls s @ [(GetConversationInfo_call cid loc, channel_answer a)]"
  by (simp add: api_defs perform_result)

lemma IsChannelUpdated_cases:
  assumes "IsChannelUpdated svc channel s = (ret, s')"
  obtains
    (fetch_failed) e where
      "calls s' = calls s @ [(GetConversationInfo_call (Status_ID channel) False, Failed e)]"
      "ret = (False, Some (RemoteError e))"
  | (attribute_drift) existing where
      "calls s' = calls s @
         [(GetConversationInfo_call (Status_ID channel) False, Channel_response existing)]"
      "ret = (True, None)"
  | (members_failed) existing e where
      "calls s' = calls s @
         [(GetConversationInfo_call (Status_ID channel) False, Channel_response existing),
          (GetUsersInConversation_call
             \<lparr>UP_ChannelID = Status_ID channel, UP_Cursor = [], UP_Limit = 100000\<rparr>, Failed e)]"
      "ret = (False, Some (RemoteError e))"
  | (added_verdict) existing ids cur s2 where
      "calls s2 = calls s @
         [(GetConversationInfo_call (Status_ID channel) False, Channel_response existing),
          (GetUsersInConversation_call
             \<lparr>UP_ChannelID = Status_ID channel, UP_Cursor = [], UP_Limit = 100000\<rparr>,
           Users_response ids cur)]"
      "IsChannelUpdated_added svc ids (Spec_Users (Spec channel)) s2 = (Some ret, s')"
  | (removed_verdict) existing ids cur s2 s3 r where
      "calls s2 = calls s @
         [(GetConversationInfo_call (Status_ID channel) False, Channel_response existing),
          (GetUsersInConversation_call
             \<lparr>UP_ChannelID = Status_ID channel, UP_Cursor = [], UP_Limit = 100000\<rparr>,
           Users_response ids cur)]"
      "IsChannelUpdated_added svc ids (Spec_Users (Spec channel)) s2 = (None, s3)"
      "IsChannelUpdated_removed svc (Spec_Users (Spec channel)) ids s3 = (r, s')"
      "ret = (case r of Some x \<Rightarrow> x | None \<Rightarrow> (False, None))"
proof -
  obtain a s1 where g: "api_GetConversationInfo svc (Status_ID channel) False s = (a, s1)"
    by fastforce
  note c1 = api_GetConversationInfo_calls [OF g]
  show thesis
  proof (cases a)
    case (Inl e)
    with assms g have "ret = (False, Some (RemoteError e))" "s' = s1"
      by (simp_all add: IsChannelUpdated_def Let_def)
    with c1 Inl show thesis by (intro fetch_failed [of e]) (simp_all add: channel_answer_def)
  next
    case (Inr existing)
    note a = this
    show thesis
    proof (cases "UnescapeString svc (Channel_Name existing) \<noteq> Spec_Name (Spec channel) \<or>
                  UnescapeString svc (Topic_Value existing) \<noteq> Spec_Topic (Spec channel) \<or>
                  UnescapeString svc (Purpose_Value existing) \<noteq> Spec_Description (Spec channel)")
      case True
      with assms g a have "ret = (True, None)" "s' = s1"
        by (auto simp: IsChannelUpdated_def Let_def split: if_splits)
      with c1 a show thesis
        by (intro attribute_drift [of existing]) (simp_all add: channel_answer_def)
    next
      case False
      obtain b s2 where l: "GetUsersInChannel svc (Status_ID channel) s1 = (b, s2)"
        by fastforce
      from assms g a False l have run:
        "(case b of Inl err \<Rightarrow> ((False, Some err), s2)
          | Inr ids \<Rightarrow>
             (case IsChannelUpdated_added svc ids (Spec_Users (Spec channel)) s2 of
                (Some ret, s3) \<Rightarrow> (ret, s3)
              | (None, s3) \<Rightarrow>
                 (case IsChannelUpdated_removed svc (Spec_Users (Spec channel)) ids s3 of
                    (Some ret, s4) \<Rightarrow> (ret, s4)
                  | (None, s4) \<Rightarrow> ((False, None), s4)))) = (ret, s')"
        by (simp add: IsChannelUpdated_def Let_def)
      from l show thesis
      proof (cases rule: GetUsersInChannel_cases)
        case (list_failed e)
        with run have "ret = (False, Some (RemoteError e))" "s' = s2" by simp_all
        with c1 a list_failed(1) show thesis
          by (intro members_failed [of existing e])
             (simp_all add: channel_answer_def)
      next
        case (listed ids cur)
        with c1 a have c2: "calls s2 = calls s @
           [(GetConversationInfo_call (Status_ID channel) False, Channel_response existing),
            (GetUsersInConversation_call
               \<lparr>UP_ChannelID = Status_ID channel, UP_Cursor = [], UP_Limit = 100000\<rparr>,
             Users_response ids cur)]"
          by (simp add: channel_answer_def)
        obtain r3 s3 where ad:
          "IsChannelUpdated_added svc ids (Spec_Users (Spec channel)) s2 = (r3, s3)"
          by fastforce
        show thesis
        proof (cases r3)
          case (Some x)
          with run listed ad have "x = ret" "s3 = s'" by simp_all
          with ad Some c2 show thesis by (intro added_verdict [of s2 existing ids cur]) simp_all
        next
          case None
          obtain r4 s4 where rm:
            "IsChannelUpdated_removed svc (Spec_Users (Spec channel)) ids s3 = (r4, s4)"
            by fastforce
          with run listed ad None have "s4 = s'"
            "ret = (case r4 of Some x \<Rightarrow> x | None \<Rightarrow> (False, None))"
            by (auto split: option.splits)
          with ad None rm c2 show thesis
            by (intro removed_verdict [of s2 existing ids cur s3 r4]) simp_all
        qed
      qed
    qed
  qed
qed

lemma IsChannelUpdated_added_None:
  assumes "IsChannelUpdated_added svc ids emails s = (None, s')"
  shows "\<exists>evs. calls s' = calls s @ evs \<and> fail_fast evs None"
proof -
  from IsChannelUpdated_added_trace [OF assms] obtain evs where
    "calls s' = calls s @ evs" "fail_fast evs (Option.bind (None :: (bool \<times> error option) option) snd)"
    by (elim exE conjE)
  then show ?thesis by (intro exI [of _ evs]) simp
qed

lemma IsChannelUpdated_added_Some:
  assumes "IsChannelUpdated_added svc ids emails s = (Some ret, s')"
  shows "\<exists>evs. calls s' = calls s @ evs \<and> fail_fast evs (snd ret) \<and> evs \<noteq> [] \<and>
           fst (last evs) \<in> range GetUserByEmail_call"
proof -
  from IsChannelUpdated_added_trace [OF assms] obtain evs where e:
    "calls s' = calls s @ evs" "fail_fast evs (Option.bind (Some ret) snd)"
    "fst ` set evs \<subseteq> range GetUserByEmail_call" "Some ret \<noteq> None \<longrightarrow> evs \<noteq> []"
    by (elim exE conjE)
  then have ne: "evs \<noteq> []" by simp
  then have "last evs \<in> set evs" by (rule last_in_set)
  then have "fst (last evs) \<in> fst ` set evs" by (rule imageI)
  with e(3) have "fst (last evs) \<in> range GetUserByEmail_call" by (rule subsetD)
  with e(1,2) ne show ?thesis by (intro exI [of _ evs]) simp
qed

lemma IsChannelUpdated_fail_fast_trace:
  assumes "IsChannelUpdated svc channel s = (ret, s')"
  shows "fail_fast (issued s s') (snd ret) \<and> (snd ret \<noteq> None \<longrightarrow> \<not> fst ret)"
  using assms
proof (cases rule: IsChannelUpdated_cases)
  case (fetch_failed e)
  then show ?thesis by (simp add: issued_append fail_fast_single)
next
  case (attribute_drift existing)
  then show ?thesis by (simp add: issued_append fail_fast_ok failed_def)
next
  case (members_failed existing e)
  have "fail_fast [(GetConversationInfo_call (Status_ID channel) False, Channel_response existing),
          (GetUsersInConversation_call
             \<lparr>UP_ChannelID = Status_ID channel, UP_Cursor = [], UP_Limit = 100000\<rparr>, Failed e)]
         (Some (RemoteError e))"
    by (intro fail_fast_Cons fail_fast_single) (simp add: failed_def)
  with members_failed show ?thesis by (simp add: issued_append)
next
  case (added_verdict existing ids cur s2)
  from IsChannelUpdated_added_Some [OF added_verdict(2)] obtain evs where e:
    "calls s' = calls s2 @ evs" "fail_fast evs (snd ret)"
    by (elim exE conjE)
  have "fail_fast ((GetConversationInfo_call (Status_ID channel) False, Channel_response existing) #
          (GetUsersInConversation_call
             \<lparr>UP_ChannelID = Status_ID channel, UP_Cursor = [], UP_Limit = 100000\<rparr>,
           Users_response ids cur) # evs) (snd ret)"
    using e(2) by (intro fail_fast_Cons) (simp_all add: failed_def)
  moreover from IsChannelUpdated_added_shape [OF added_verdict(2)]
  have "snd ret \<noteq> None \<longrightarrow> \<not> fst ret" by (elim disjE exE) simp_all
  ultimately show ?thesis using added_verdict(1) e(1) by (simp add: issued_def)
next
  case (removed_verdict existing ids cur s2 s3 r)
  from IsChannelUpdated_added_None [OF removed_verdict(2)] obtain evs1 where e1:
    "calls s3 = calls s2 @ evs1" "fail_fast evs1 None"
    by (elim exE conjE)
  from IsChannelUpdated_removed_trace [OF removed_verdict(3)] obtain evs2 where e2:
    "calls s' = calls s3 @ evs2" "fail_fast evs2 (Option.bind r snd)"
    by (elim exE conjE)
  have sr: "snd ret = Option.bind r snd"
    using removed_verdict(4) by (cases r) simp_all
  have "fail_fast (evs1 @ evs2) (snd ret)"
    using e1(2) e2(2) unfolding sr by (rule fail_fast_append)
  then have "fail_fast ((GetConversationInfo_call (Status_ID channel) False, Channel_response existing) #
          (GetUsersInConversation_call
             \<lparr>UP_ChannelID = Status_ID channel, UP_Cursor = [], UP_Limit = 100000\<rparr>,
           Users_response ids cur) # evs1 @ evs2) (snd ret)"
    by (intro fail_fast_Cons) (simp_all add: failed_def)
  moreover from IsChannelUpdated_removed_shape [OF removed_verdict(3)] removed_verdict(4)
  have "snd ret \<noteq> None \<longrightarrow> \<not> fst ret" by (elim disjE exE) simp_all
  ultimately show ?thesis using removed_verdict(1) e1(1) e2(1) by (simp add: issued_def)
qed

lemma last_of_snoc_eq: "xs @ ys = pre @ [x] \<Longrightarrow> ys \<noteq> [] \<Longrightarrow> last ys = x"
  by (metis last_appendR last_snoc)

lemma IsChannelUpdated_drift_last:
  assumes "IsChannelUpdated svc channel s = ((True, None), s')"
    and "issued s s' = pre @ [(GetUserInfo_call m, resp)]"
  shows "extraneous_lookup (Spec_Users (Spec channel)) (GetUserInfo_call m, resp)"
  using assms(1)
proof (cases rule: IsChannelUpdated_cases)
  case (fetch_failed e)
  then show ?thesis by simp
next
  case (attribute_drift existing)
  with assms(2) show ?thesis by (simp add: issued_append)
next
  case (members_failed existing e)
  then show ?thesis by simp
next
  case (added_verdict existing ids cur s2)
  from IsChannelUpdated_added_Some [OF added_verdict(2)] obtain evs where e:
    "calls s' = calls s2 @ evs" "evs \<noteq> []" "fst (last evs) \<in> range GetUserByEmail_call"
    by (elim exE conjE)
  from e(1) added_verdict(1) assms(2) have
    "[(GetConversationInfo_call (Status_ID channel) False, Channel_response existing),
          (GetUsersInConversation_call
             \<lparr>UP_ChannelID = Status_ID channel, UP_Cursor = [], UP_Limit = 100000\<rparr>,
           Users_response ids cur)] @ evs = pre @ [(GetUserInfo_call m, resp)]"
    by (simp add: issued_def)
  from last_of_snoc_eq [OF this e(2)] e(3) have False by (auto simp: image_iff)
  then show ?thesis ..
next
  case (removed_verdict existing ids cur s2 s3 r)
  from removed_verdict(4) have r: "r = Some (True, None)" by (cases r) simp_all
  from IsChannelUpdated_added_None [OF removed_verdict(2)] obtain evs1 where e1:
    "calls s3 = calls s2 @ evs1" by (elim exE conjE)
  from IsChannelUpdated_removed_trace [OF removed_verdict(3)] obtain evs2 where e2:
    "calls s' = calls s3 @ evs2"
    "r = Some (True, None) \<longrightarrow> evs2 \<noteq> [] \<and>
          extraneous_lookup (Spec_Users (Spec channel)) (last evs2)"
    by (elim exE conjE)
  with r have ne: "evs2 \<noteq> []"
    and x: "extraneous_lookup (Spec_Users (Spec channel)) (last evs2)" by simp_all
  from e1 e2(1) removed_verdict(1) assms(2) have
    "((GetConversationInfo_call (Status_ID channel) False, Channel_response existing) #
          (GetUsersInConversation_call
             \<lparr>UP_ChannelID = Status_ID channel, UP_Cursor = [], UP_Limit = 100000\<rparr>,
           Users_response ids cur) # evs1) @ evs2 = pre @ [(GetUserInfo_call m, resp)]"
    by (simp add: issued_def)
  from last_of_snoc_eq [OF this ne] x show ?thesis by simp
qed

text \<open>
  C7. In every run of \<open>IsChannelUpdated\<close>, a remote call that fails (the fetch of the member
  list, a lookup by email, a lookup of user information; the first fetch of the channel
  as well) is the last call of the run, and the run returns \<open>false\<close> together with the error
  of that call: the comparison made so far yields no verdict.
\<close>

theorem IsChannelUpdated_lookup_failure:
  assumes "issued s (snd (IsChannelUpdated svc channel s)) = pre @ (c, Failed e) # post"
  shows "post = [] \<and> fst (IsChannelUpdated svc channel s) = (False, Some (RemoteError e))"
proof -
  obtain ret s' where run: "IsChannelUpdated svc channel s = (ret, s')" by fastforce
  from IsChannelUpdated_fail_fast_trace [OF run]
  have ff: "fail_fast (issued s s') (snd ret)" and v: "snd ret \<noteq> None \<longrightarrow> \<not> fst ret"
    by simp_all
  from assms run have "issued s s' = pre @ (c, Failed e) # post" by simp
  from fail_fast_decompose [OF ff this] have "post = []" "snd ret = Some (RemoteError e)"
    by simp_all
  with v have "ret = (False, Some (RemoteError e))" by (cases ret) simp
  with \<open>post = []\<close> run show ?thesis by simp
qed

lemmas drift_defs = IsChannelUpdated_def GetUsersInChannel_def api_defs answer_defs demo_defs
  spec_of_def team_x_def Let_def

text \<open>
  Channel \<open>C3\<close>, desired members \<open>c\<close> and \<open>b\<close>: \<open>c\<close> resolves to a member, the lookup of
  \<open>b\<close> fails.
\<close>

theorem IsChannelUpdated_lookup_failure_witness:
  "issued start (snd (IsChannelUpdated demo (spec_of ''C3'' ''team-x'' [''c'', ''b'']) start)) =
     [(GetConversationInfo_call ''C3'' False, Channel_response team_x),
      (list_call ''C3'', Users_response [''U2'', ''U9'', ''U3''] []),
      (GetUserByEmail_call ''c'', User_response (slack_user ''U3'' ''c'' False))] @
     (GetUserByEmail_call ''b'', Failed ''users_not_found'') # [] \<and>
   fst (IsChannelUpdated demo (spec_of ''C3'' ''team-x'' [''c'', ''b'']) start) =
     (False, Some (RemoteError ''users_not_found''))"
proof -
  have run:
    "issued start (snd (IsChannelUpdated demo (spec_of ''C3'' ''team-x'' [''c'', ''b'']) start)) =
     [(GetConversationInfo_call ''C3'' False, Channel_response team_x),
      (list_call ''C3'', Users_response [''U2'', ''U9'', ''U3''] []),
      (GetUserByEmail_call ''c'', User_response (slack_user ''U3'' ''c'' False))] @
     (GetUserByEmail_call ''b'', Failed ''users_not_found'') # []"
    by (simp add: drift_defs)
  from IsChannelUpdated_lookup_failure [OF run] run show ?thesis by simp
qed

text \<open>
  C6. The name, the topic and the description are compared before any membership call:
  when the fetched channel differs from the desired one in its unescaped name (or, the
  names being compared first, in its topic or description), \<open>IsChannelUpdated\<close> reports drift
  and the fetch of the channel is the only remote call it has made.
\<close>

theorem IsChannelUpdated_short_circuit:
  assumes "GetConversationInfo (api svc) (Status_ID channel) False (world s) = (Inr existing, w')"
    and "UnescapeString svc (Channel_Name existing) \<noteq> Spec_Name (Spec channel) \<or>
         UnescapeString svc (Topic_Value existing) \<noteq> Spec_Topic (Spec channel) \<or>
         UnescapeString svc (Purpose_Value existing) \<noteq> Spec_Description (Spec channel)"
  shows "IsChannelUpdated svc channel s =
           ((True, None),
            \<lparr>world = w', calls = calls s @
               [(GetConversationInfo_call (Status_ID channel) False, Channel_response existing)]\<rparr>)"
  using assms
  by (auto simp: IsChannelUpdated_def api_GetConversationInfo_def perform_def channel_answer_def
      Let_def)

text \<open>The desired name is \<open>team-y\<close>, the remote name is \<open>team-x\<close>.\<close>

theorem IsChannelUpdated_short_circuit_witness:
  "GetConversationInfo (api demo) (Status_ID (spec_of ''C1'' ''team-y'' [''a''])) False
     (world start) = (Inr team_x, ()) \<and>
   UnescapeString demo (Channel_Name team_x) \<noteq> Spec_Name (Spec (spec_of ''C1'' ''team-y'' [''a''])) \<and>
   IsChannelUpdated demo (spec_of ''C1'' ''team-y'' [''a'']) start =
     ((True, None),
      \<lparr>world = (), calls = [(GetConversationInfo_call ''C1'' False, Channel_response team_x)]\<rparr>)"
proof -
  have fetch: "GetConversationInfo (api demo) (Status_ID (spec_of ''C1'' ''team-y'' [''a''])) False
     (world start) = (Inr team_x, ())"
    by (simp add: demo_defs spec_of_def)
  have differs: "UnescapeString demo (Channel_Name team_x) \<noteq>
      Spec_Name (Spec (spec_of ''C1'' ''team-y'' [''a'']))"
    by (simp add: demo_defs spec_of_def team_x_def)
  from IsChannelUpdated_short_circuit [OF fetch disjI1 [OF differs]] fetch differs
  show ?thesis by (simp add: spec_of_def start_def)
qed

section \<open>Validation\<close>

text \<open>
  C8. \<open>IsValidChannel\<close> returns the validation error for every channel whose list of users
  is empty and no error for every channel with at least one user; no other field is read.
\<close>

theorem IsValidChannel_users:
  "(Spec_Users (Spec channel) = [] \<longrightarrow>
      IsValidChannel channel = Some (Errorf ''Users can not be empty'')) \<and>
   (Spec_Users (Spec channel) \<noteq> [] \<longrightarrow> IsValidChannel channel = None)"
  by (cases "Spec_Users (Spec channel)") (simp_all add: IsValidChannel_def)

theorem IsValidChannel_users_witness:
  "Spec_Users (Spec \<lparr>Spec = \<lparr>Spec_Name = [], Spec_Users = [], Spec_Description = [],
      Spec_Private = False, Spec_Topic = []\<rparr>, Status_ID = []\<rparr>) = [] \<and>
   IsValidChannel \<lparr>Spec = \<lparr>Spec_Name = [], Spec_Users = [], Spec_Description = [],
      Spec_Private = False, Spec_Topic = []\<rparr>, Status_ID = []\<rparr> =
     Some (Errorf ''Users can not be empty'') \<and>
   Spec_Users (Spec \<lparr>Spec = \<lparr>Spec_Name = [], Spec_Users = [''a''], Spec_Description = [],
      Spec_Private = False, Spec_Topic = []\<rparr>, Status_ID = []\<rparr>) \<noteq> [] \<and>
   IsValidChannel \<lparr>Spec = \<lparr>Spec_Name = [], Spec_Users = [''a''], Spec_Description = [],
      Spec_Private = False, Spec_Topic = []\<rparr>, Status_ID = []\<rparr> = None"
  using IsValidChannel_users [of "\<lparr>Spec = \<lparr>Spec_Name = [], Spec_Users = [], Spec_Description = [],
      Spec_Private = False, Spec_Topic = []\<rparr>, Status_ID = []\<rparr>"]
    IsValidChannel_users [of "\<lparr>Spec = \<lparr>Spec_Name = [], Spec_Users = [''a''],
      Spec_Description = [], Spec_Private = False, Spec_Topic = []\<rparr>, Status_ID = []\<rparr>"]
  by simp

section \<open>Bots are left alone\<close>

lemma kicks_justified_first:
  assumes "kicks_justified cid emails evs"
  shows "kicks_justified cid emails ((GetUsersInConversation_call p, r) # evs)"
  unfolding kicks_justified_def
proof (intro allI impI)
  fix pre c u resp post
  assume d: "(GetUsersInConversation_call p, r) # evs =
               pre @ (KickUserFromConversation_call c u, resp) # post"
  then obtain pre2 where p: "pre = (GetUsersInConversation_call p, r) # pre2"
    and e: "evs = pre2 @ (KickUserFromConversation_call c u, resp) # post"
    by (cases pre) auto
  from assms e obtain pre' m' usr where
    "pre2 = pre' @ [(GetUserInfo_call m', User_response usr)]" "\<not> IsBot usr" "User_ID usr = u"
    "c = cid" "Profile_Email usr \<notin> set emails"
    unfolding kicks_justified_def by blast
  with p show "\<exists>pre' m usr. pre = pre' @ [(GetUserInfo_call m, User_response usr)] \<and>
           \<not> IsBot usr \<and> User_ID usr = u \<and> c = cid \<and> Profile_Email usr \<notin> set emails"
    by (intro exI [of _ "(GetUsersInConversation_call p, r) # pre'"] exI [of _ m'] exI [of _ usr])
       simp
qed

lemma RemoveUsers_kicks_justified:
  "kicks_justified cid emails (issued s (snd (RemoveUsers svc cid emails s)))"
proof -
  obtain r s' where run: "RemoveUsers svc cid emails s = (r, s')" by fastforce
  then have "kicks_justified cid emails (issued s s')"
  proof (cases rule: RemoveUsers_cases)
    case (list_failed e)
    have "kicks_justified cid emails [(GetUsersInConversation_call
          \<lparr>UP_ChannelID = cid, UP_Cursor = [], UP_Limit = 100000\<rparr>, Failed e)]"
      by (rule kicks_justified_first) (simp add: kicks_justified_def)
    with list_failed show ?thesis by (simp add: issued_append)
  next
    case (listed ids cur s1)
    from RemoveUsers_loop_kicks [OF listed(2)] obtain evs where
      e: "calls s' = calls s1 @ evs" "kicks_justified cid emails evs" by (elim exE conjE)
    from e(2) have "kicks_justified cid emails ((GetUsersInConversation_call
          \<lparr>UP_ChannelID = cid, UP_Cursor = [], UP_Limit = 100000\<rparr>, Users_response ids cur) # evs)"
      by (rule kicks_justified_first)
    with listed(1) e(1) show ?thesis by (simp add: issued_def)
  qed
  with run show ?thesis by simp
qed

text \<open>
  C4. A member flagged \<open>IsBot\<close> is never kicked and never causes drift, whatever its email.
  In every run of \<open>RemoveUsers\<close>, each kick comes right after the lookup of the kicked
  user, and that lookup answered a user that is not flagged \<open>IsBot\<close> (and whose email is
  not desired); so the lookup of a bot is never followed by its kick. In every run of
  \<open>IsChannelUpdated\<close> that reports drift right after a lookup of user information, the user
  looked up is not flagged \<open>IsBot\<close> and its email is not desired.
\<close>

theorem bots_are_never_removed:
  "(issued s (snd (RemoveUsers svc channelID userEmails s)) =
      pre @ (KickUserFromConversation_call c u, resp) # post \<longrightarrow>
      (\<exists>pre' m usr. pre = pre' @ [(GetUserInfo_call m, User_response usr)] \<and>
         \<not> IsBot usr \<and> User_ID usr = u \<and> c = channelID \<and>
         Profile_Email usr \<notin> set userEmails)) \<and>
   (fst (IsChannelUpdated svc channel s) = (True, None) \<and>
    issued s (snd (IsChannelUpdated svc channel s)) =
      pre2 @ [(GetUserInfo_call m2, User_response usr2)] \<longrightarrow>
      \<not> IsBot usr2 \<and> Profile_Email usr2 \<notin> set (Spec_Users (Spec channel)))"
proof (rule conjI; rule impI)
  assume "issued s (snd (RemoveUsers svc channelID userEmails s)) =
      pre @ (KickUserFromConversation_call c u, resp) # post"
  with RemoveUsers_kicks_justified [of channelID userEmails s svc]
  show "\<exists>pre' m usr. pre = pre' @ [(GetUserInfo_call m, User_response usr)] \<and>
         \<not> IsBot usr \<and> User_ID usr = u \<and> c = channelID \<and>
         Profile_Email usr \<notin> set userEmails"
    unfolding kicks_justified_def by blast
next
  assume a: "fst (IsChannelUpdated svc channel s) = (True, None) \<and>
    issued s (snd (IsChannelUpdated svc channel s)) =
      pre2 @ [(GetUserInfo_call m2, User_response usr2)]"
  obtain s' where run: "IsChannelUpdated svc channel s = ((True, None), s')"
    using a by (cases "IsChannelUpdated svc channel s") simp
  with a have "issued s s' = pre2 @ [(GetUserInfo_call m2, User_response usr2)]" by simp
  from IsChannelUpdated_drift_last [OF run this]
  show "\<not> IsBot usr2 \<and> Profile_Email usr2 \<notin> set (Spec_Users (Spec channel))"
    by (simp add: extraneous_lookup_def)
qed

lemmas remove_defs = RemoveUsers_def GetUsersInChannel_def api_defs answer_defs demo_defs

text \<open>
  Channel \<open>C2\<close> has the bot \<open>B1\<close> and the users \<open>U1\<close> (email \<open>a\<close>, desired) and \<open>U2\<close>
  (email \<open>b\<close>, not desired). The email of the bot is not desired either, and still only
  \<open>U2\<close> is kicked, and only \<open>U2\<close> causes drift.
\<close>

theorem bots_are_never_removed_witness:
  "issued start (snd (RemoveUsers demo ''C2'' [''a''] start)) =
     [(list_call ''C2'', Users_response [''B1'', ''U1'', ''U2''] []),
      (GetUserInfo_call ''B1'', User_response (slack_user ''B1'' ''bot'' True)),
      (GetUserInfo_call ''U1'', User_response (slack_user ''U1'' ''a'' False)),
      (GetUserInfo_call ''U2'', User_response (slack_user ''U2'' ''b'' False))] @
     (KickUserFromConversation_call ''C2'' ''U2'', Done) # [] \<and>
   (\<exists>pre' m usr.
      [(list_call ''C2'', Users_response [''B1'', ''U1'', ''U2''] []),
       (GetUserInfo_call ''B1'', User_response (slack_user ''B1'' ''bot'' True)),
       (GetUserInfo_call ''U1'', User_response (slack_user ''U1'' ''a'' False)),
       (GetUserInfo_call ''U2'', User_response (slack_user ''U2'' ''b'' False))] =
        pre' @ [(GetUserInfo_call m, User_response usr)] \<and>
      \<not> IsBot usr \<and> User_ID usr = ''U2'' \<and> ''C2'' = ''C2'' \<and> Profile_Email usr \<notin> set [''a'']) \<and>
   fst (IsChannelUpdated demo (spec_of ''C2'' ''team-x'' [''a'']) start) = (True, None) \<and>
   issued start (snd (IsChannelUpdated demo (spec_of ''C2'' ''team-x'' [''a'']) start)) =
     [(GetConversationInfo_call ''C2'' False, Channel_response team_x),
      (list_call ''C2'', Users_response [''B1'', ''U1'', ''U2''] []),
      (GetUserByEmail_call ''a'', User_response (slack_user ''U1'' ''a'' False)),
      (GetUserInfo_call ''B1'', User_response (slack_user ''B1'' ''bot'' True)),
      (GetUserInfo_call ''U1'', User_response (slack_user ''U1'' ''a'' False))] @
     [(GetUserInfo_call ''U2'', User_response (slack_user ''U2'' ''b'' False))] \<and>
   \<not> IsBot (slack_user ''U2'' ''b'' False) \<and>
   Profile_Email (slack_user ''U2'' ''b'' False) \<notin>
     set (Spec_Users (Spec (spec_of ''C2'' ''team-x'' [''a''])))"
proof -
  have kick: "issued start (snd (RemoveUsers demo ''C2'' [''a''] start)) =
     [(list_call ''C2'', Users_response [''B1'', ''U1'', ''U2''] []),
      (GetUserInfo_call ''B1'', User_response (slack_user ''B1'' ''bot'' True)),
      (GetUserInfo_call ''U1'', User_response (slack_user ''U1'' ''a'' False)),
      (GetUserInfo_call ''U2'', User_response (slack_user ''U2'' ''b'' False))] @
     (KickUserFromConversation_call ''C2'' ''U2'', Done) # []"
    by (simp add: remove_defs)
  have drift: "fst (IsChannelUpdated demo (spec_of ''C2'' ''team-x'' [''a'']) start) = (True, None) \<and>
   issued start (snd (IsChannelUpdated demo (spec_of ''C2'' ''team-x'' [''a'']) start)) =
     [(GetConversationInfo_call ''C2'' False, Channel_response team_x),
      (list_call ''C2'', Users_response [''B1'', ''U1'', ''U2''] []),
      (GetUserByEmail_call ''a'', User_response (slack_user ''U1'' ''a'' False)),
      (GetUserInfo_call ''B1'', User_response (slack_user ''B1'' ''bot'' True)),
      (GetUserInfo_call ''U1'', User_response (slack_user ''U1'' ''a'' False))] @
     [(GetUserInfo_call ''U2'', User_response (slack_user ''U2'' ''b'' False))]"
    by (simp add: drift_defs)
  note inst = bots_are_never_removed [of start demo "''C2''" "[''a'']" _ "''C2''" "''U2''" Done "[]"
      "spec_of ''C2'' ''team-x'' [''a'']" _ "''U2''" "slack_user ''U2'' ''b'' False"]
  from inst [THEN conjunct1, rule_format, OF kick] inst [THEN conjunct2, rule_format, OF drift]
    kick drift
  show ?thesis by simp
qed

section \<open>Failing reads during removal\<close>

text \<open>
  C10. \<open>RemoveUsers\<close> is fail-fast on its reads: in every run, a fetch of the member list
  or a lookup of user information that fails is the last remote call of the run (no kick
  and no lookup follows), and its error is what \<open>RemoveUsers\<close> returns.
\<close>

theorem RemoveUsers_read_failure:
  assumes "issued s (snd (RemoveUsers svc channelID userEmails s)) =
             pre @ (GetUsersInConversation_call p, Failed e) # post \<or>
           issued s (snd (RemoveUsers svc channelID userEmails s)) =
             pre @ (GetUserInfo_call userId, Failed e) # post"
  shows "post = [] \<and> fst (RemoveUsers svc channelID userEmails s) = Some (RemoteError e)"
  using assms fail_fast_decompose [OF RemoveUsers_trace_fail_fast] by blast


text \<open>
  The member list of channel \<open>C0\<close> cannot be fetched. In channel \<open>C3\<close> the user \<open>U2\<close> is
  kicked, then the lookup of \<open>U9\<close> fails; \<open>U3\<close> is never looked up.
\<close>

theorem RemoveUsers_read_failure_witness:
  "issued start (snd (RemoveUsers demo ''C0'' [''c''] start)) =
     [] @ (GetUsersInConversation_call
             \<lparr>UP_ChannelID = ''C0'', UP_Cursor = [], UP_Limit = 100000\<rparr>,
           Failed ''channel_not_found'') # [] \<and>
   fst (RemoveUsers demo ''C0'' [''c''] start) = Some (RemoteError ''channel_not_found'') \<and>
   issued start (snd (RemoveUsers demo ''C3'' [''c''] start)) =
     [(list_call ''C3'', Users_response [''U2'', ''U9'', ''U3''] []),
      (GetUserInfo_call ''U2'', User_response (slack_user ''U2'' ''b'' False)),
      (KickUserFromConversation_call ''C3'' ''U2'', Done)] @
     (GetUserInfo_call ''U9'', Failed ''user_not_found'') # [] \<and>
   fst (RemoveUsers demo ''C3'' [''c''] start) = Some (RemoteError ''user_not_found'')"
proof -
  have list: "issued start (snd (RemoveUsers demo ''C0'' [''c''] start)) =
     [] @ (GetUsersInConversation_call
             \<lparr>UP_ChannelID = ''C0'', UP_Cursor = [], UP_Limit = 100000\<rparr>,
           Failed ''channel_not_found'') # []"
    by (simp add: remove_defs)
  have info: "issued start (snd (RemoveUsers demo ''C3'' [''c''] start)) =
     [(list_call ''C3'', Users_response [''U2'', ''U9'', ''U3''] []),
      (GetUserInfo_call ''U2'', User_response (slack_user ''U2'' ''b'' False)),
      (KickUserFromConversation_call ''C3'' ''U2'', Done)] @
     (GetUserInfo_call ''U9'', Failed ''user_not_found'') # []"
    by (simp add: remove_defs)
  from RemoveUsers_read_failure [OF disjI1 [OF list]] RemoveUsers_read_failure [OF disjI2 [OF info]]
    list info
  show ?thesis by simp
qed

section \<open>Attribute setters\<close>

text \<open>
  C1. When the fetched channel's topic (description, name), unescaped, equals the desired
  value, \<open>SetTopic\<close> (\<open>SetDescription\<close>, \<open>RenameChannel\<close>) returns the fetched channel as
  it is and its only remote call is the fetch: no write call is made. When the values
  differ, the calls are the fetch followed by the one write call with the desired value.
\<close>

theorem setters_skip_equal_values:
  assumes "GetConversationInfo (api svc) channelID False (world s) = (Inr channel, w')"
  shows "(UnescapeString svc (Topic_Value channel) = topic \<longrightarrow>
            SetTopic svc channelID topic s =
              (Inr channel, \<lparr>world = w', calls = calls s @
                 [(GetConversationInfo_call channelID False, Channel_response channel)]\<rparr>)) \<and>
         (UnescapeString svc (Purpose_Value channel) = description \<longrightarrow>
            SetDescription svc channelID description s =
              (Inr channel, \<lparr>world = w', calls = calls s @
                 [(GetConversationInfo_call channelID False, Channel_response channel)]\<rparr>)) \<and>
         (UnescapeString svc (Channel_Name channel) = newName \<longrightarrow>
            RenameChannel svc channelID newName s =
              (Inr channel, \<lparr>world = w', calls = calls s @
                 [(GetConversationInfo_call channelID False, Channel_response channel)]\<rparr>)) \<and>
         (UnescapeString svc (Topic_Value channel) \<noteq> topic' \<longrightarrow>
            map fst (issued s (snd (SetTopic svc channelID topic' s))) =
              [GetConversationInfo_call channelID False,
               SetTopicOfConversation_call channelID topic']) \<and>
         (UnescapeString svc (Purpose_Value channel) \<noteq> description' \<longrightarrow>
            map fst (issued s (snd (SetDescription svc channelID description' s))) =
              [GetConversationInfo_call channelID False,
               SetPurposeOfConversation_call channelID description']) \<and>
         (UnescapeString svc (Channel_Name channel) \<noteq> newName' \<longrightarrow>
            map fst (issued s (snd (RenameChannel svc channelID newName' s))) =
              [GetConversationInfo_call channelID False,
               RenameConversation_call channelID newName'])"
proof -
  have t: "UnescapeString svc (Topic_Value channel) \<noteq> topic' \<longrightarrow>
            map fst (issued s (snd (SetTopic svc channelID topic' s))) =
              [GetConversationInfo_call channelID False,
               SetTopicOfConversation_call channelID topic']"
    using assms
    by (simp add: SetTopic_def api_GetConversationInfo_def api_SetTopicOfConversation_def
        perform_def issued_def split: prod.splits sum.splits)
  have d: "UnescapeString svc (Purpose_Value channel) \<noteq> description' \<longrightarrow>
            map fst (issued s (snd (SetDescription svc channelID description' s))) =
              [GetConversationInfo_call channelID False,
               SetPurposeOfConversation_call channelID description']"
    using assms
    by (simp add: SetDescription_def api_GetConversationInfo_def
        api_SetPurposeOfConversation_def perform_def issued_def split: prod.splits sum.splits)
  have n: "UnescapeString svc (Channel_Name channel) \<noteq> newName' \<longrightarrow>
            map fst (issued s (snd (RenameChannel svc channelID newName' s))) =
              [GetConversationInfo_call channelID False,
               RenameConversation_call channelID newName']"
    using assms
    by (simp add: RenameChannel_def api_GetConversationInfo_def api_RenameConversation_def
        perform_def issued_def split: prod.splits sum.splits)
  from assms t d n show ?thesis
    by (simp add: SetTopic_def SetDescription_def RenameChannel_def api_GetConversationInfo_def
        perform_def channel_answer_def)
qed


text \<open>
  The remote topic \<open>Launch &amp;co\<close> equals the desired \<open>Launch &co\<close> once unescaped.
\<close>

theorem setters_skip_equal_values_witness:
  "GetConversationInfo (api demo) ''C1'' False (world start) = (Inr team_x, ()) \<and>
   UnescapeString demo (Topic_Value team_x) = ''Launch &co'' \<and>
   SetTopic demo ''C1'' ''Launch &co'' start =
     (Inr team_x, \<lparr>world = (), calls = calls start @
        [(GetConversationInfo_call ''C1'' False, Channel_response team_x)]\<rparr>) \<and>
   UnescapeString demo (Purpose_Value team_x) = [] \<and>
   SetDescription demo ''C1'' [] start =
     (Inr team_x, \<lparr>world = (), calls = calls start @
        [(GetConversationInfo_call ''C1'' False, Channel_response team_x)]\<rparr>) \<and>
   UnescapeString demo (Channel_Name team_x) = ''team-x'' \<and>
   RenameChannel demo ''C1'' ''team-x'' start =
     (Inr team_x, \<lparr>world = (), calls = calls start @
        [(GetConversationInfo_call ''C1'' False, Channel_response team_x)]\<rparr>) \<and>
   UnescapeString demo (Topic_Value team_x) \<noteq> ''launch'' \<and>
   map fst (issued start (snd (SetTopic demo ''C1'' ''launch'' start))) =
     [GetConversationInfo_call ''C1'' False, SetTopicOfConversation_call ''C1'' ''launch''] \<and>
   UnescapeString demo (Purpose_Value team_x) \<noteq> ''d'' \<and>
   map fst (issued start (snd (SetDescription demo ''C1'' ''d'' start))) =
     [GetConversationInfo_call ''C1'' False, SetPurposeOfConversation_call ''C1'' ''d''] \<and>
   UnescapeString demo (Channel_Name team_x) \<noteq> ''team-y'' \<and>
   map fst (issued start (snd (RenameChannel demo ''C1'' ''team-y'' start))) =
     [GetConversationInfo_call ''C1'' False, RenameConversation_call ''C1'' ''team-y'']"
proof -
  have fetch: "GetConversationInfo (api demo) ''C1'' False (world start) = (Inr team_x, ())"
    by (simp add: demo_defs)
  have vals:
    "UnescapeString demo (Topic_Value team_x) = ''Launch &co''"
    "UnescapeString demo (Purpose_Value team_x) = []"
    "UnescapeString demo (Channel_Name team_x) = ''team-x''"
    "UnescapeString demo (Topic_Value team_x) \<noteq> ''launch''"
    "UnescapeString demo (Purpose_Value team_x) \<noteq> ''d''"
    "UnescapeString demo (Channel_Name team_x) \<noteq> ''team-y''"
    by (simp_all add: demo_def team_x_def)
  from setters_skip_equal_values [OF fetch, of "''Launch &co''" "[]" "''team-x''" "''launch''"
      "''d''" "''team-y''"] fetch vals
  show ?thesis by simp
qed

section \<open>Invitations\<close>

lemma InviteUsers_loop_step:
  assumes "InviteUsers_loop svc cid (email # rest) errs s = (r, s')"
  obtains
    (lookup_failed) e s1 where
      "calls s1 = calls s @ [(GetUserByEmail_call email, Failed e)]"
      "InviteUsers_loop svc cid rest
         (errs @ [Errorf (''Error fetching user by Email '' @ email)]) s1 = (r, s')"
  | (invited) usr resp s2 where
      "calls s2 = calls s @ [(GetUserByEmail_call email, User_response usr),
                             (InviteUsersToConversation_call cid (User_ID usr), resp)]"
      "InviteUsers_loop svc cid rest
         (errs @ recorded_errors [(InviteUsersToConversation_call cid (User_ID usr), resp)]) s2 =
       (r, s')"
  using assms
  by (auto simp: api_defs user_answer_def channel_answer_def
      dest!: perform_result split: prod.splits sum.splits if_splits intro: that)

lemma InviteUsers_loop_trace:
  "InviteUsers_loop svc cid emails errs s = (r, s') \<Longrightarrow>
     \<exists>evs. calls s' = calls s @ evs \<and> lookups evs = emails \<and> r = errs @ recorded_errors evs"
proof (induction emails arbitrary: errs s)
  case Nil
  then show ?case by simp
next
  case (Cons email rest)
  from Cons.prems show ?case
  proof (cases rule: InviteUsers_loop_step)
    case (lookup_failed e s1)
    from Cons.IH [OF lookup_failed(2)] obtain evs where e:
      "calls s' = calls s1 @ evs" "lookups evs = rest"
      "r = (errs @ [Errorf (''Error fetching user by Email '' @ email)]) @ recorded_errors evs"
      by (elim exE conjE)
    with lookup_failed(1) show ?thesis
      by (intro exI [of _ "(GetUserByEmail_call email, Failed e) # evs"]) simp
  next
    case (invited usr resp s2)
    from Cons.IH [OF invited(2)] obtain evs where e:
      "calls s' = calls s2 @ evs" "lookups evs = rest"
      "r = (errs @ recorded_errors [(InviteUsersToConversation_call cid (User_ID usr), resp)]) @
             recorded_errors evs"
      by (elim exE conjE)
    have "recorded_errors ((GetUserByEmail_call email, User_response usr) #
            (InviteUsersToConversation_call cid (User_ID usr), resp) # evs) =
          recorded_errors [(InviteUsersToConversation_call cid (User_ID usr), resp)] @
            recorded_errors evs"
      by (cases resp) simp_all
    with invited(1) e show ?thesis
      by (intro exI [of _ "(GetUserByEmail_call email, User_response usr) #
            (InviteUsersToConversation_call cid (User_ID usr), resp) # evs"]) simp
  qed
qed

lemma recorded_errors_Nil: "recorded_errors evs = [] \<Longrightarrow> ev \<in> set evs \<Longrightarrow> tolerated ev"
  by (induction evs rule: recorded_errors.induct) (auto simp: tolerated_def split: if_splits call.splits response.splits)

text \<open>
  C2. \<open>InviteUsers\<close> processes every email, whatever happened before: in every run the
  emails looked up are exactly the given emails, in order. The returned list holds one
  entry for each lookup that failed and one for each invitation that failed with an error
  other than \<open>already_in_channel\<close> and \<open>cant_invite_self\<close>, in the order of the calls, and
  nothing else. When the returned list is empty, no lookup failed and every invitation
  succeeded or failed with one of the two tolerated errors.
\<close>

theorem InviteUsers_tolerant:
  "lookups (issued s (snd (InviteUsers svc channelID userEmails s))) = userEmails \<and>
   fst (InviteUsers svc channelID userEmails s) =
     recorded_errors (issued s (snd (InviteUsers svc channelID userEmails s))) \<and>
   (fst (InviteUsers svc channelID userEmails s) = [] \<longrightarrow>
      list_all tolerated (issued s (snd (InviteUsers svc channelID userEmails s))))"
proof -
  obtain r s' where run: "InviteUsers_loop svc channelID userEmails [] s = (r, s')"
    by fastforce
  from InviteUsers_loop_trace [OF run] obtain evs where
    e: "calls s' = calls s @ evs" "lookups evs = userEmails" "r = [] @ recorded_errors evs"
    by (elim exE conjE)
  from e(1) have i: "issued s s' = evs" by (rule issued_append)
  from e(3) have "r = [] \<longrightarrow> list_all tolerated evs"
    by (auto simp: list_all_iff dest: recorded_errors_Nil)
  with e i run show ?thesis by (simp add: InviteUsers_def)
qed


text \<open>
  Emails \<open>a\<close>, \<open>b\<close>, \<open>c\<close>: the lookup of \<open>b\<close> fails and the invitation of \<open>c\<close> answers
  \<open>already_in_channel\<close>, so the only error is the one for \<open>b\<close>. Without \<open>b\<close> the list is empty.
\<close>

theorem InviteUsers_tolerant_witness:
  "lookups (issued start (snd (InviteUsers demo ''C1'' [''a'', ''b'', ''c''] start))) =
     [''a'', ''b'', ''c''] \<and>
   fst (InviteUsers demo ''C1'' [''a'', ''b'', ''c''] start) =
     [Errorf ''Error fetching user by Email b''] \<and>
   fst (InviteUsers demo ''C1'' [''a'', ''c''] start) = [] \<and>
   list_all tolerated (issued start (snd (InviteUsers demo ''C1'' [''a'', ''c''] start)))"
proof -
  have abc: "issued start (snd (InviteUsers demo ''C1'' [''a'', ''b'', ''c''] start)) =
     [(GetUserByEmail_call ''a'', User_response (slack_user ''U1'' ''a'' False)),
      (InviteUsersToConversation_call ''C1'' ''U1'', Channel_response team_x),
      (GetUserByEmail_call ''b'', Failed ''users_not_found''),
      (GetUserByEmail_call ''c'', User_response (slack_user ''U3'' ''c'' False)),
      (InviteUsersToConversation_call ''C1'' ''U3'', Failed ''already_in_channel'')]"
    by (simp add: InviteUsers_def api_defs answer_defs demo_defs)
  have ac: "issued start (snd (InviteUsers demo ''C1'' [''a'', ''c''] start)) =
     [(GetUserByEmail_call ''a'', User_response (slack_user ''U1'' ''a'' False)),
      (InviteUsersToConversation_call ''C1'' ''U1'', Channel_response team_x),
      (GetUserByEmail_call ''c'', User_response (slack_user ''U3'' ''c'' False)),
      (InviteUsersToConversation_call ''C1'' ''U3'', Failed ''already_in_channel'')]"
    by (simp add: InviteUsers_def api_defs answer_defs demo_defs)
  from InviteUsers_tolerant [of start demo "''C1''" "[''a'', ''b'', ''c'']"]
    InviteUsers_tolerant [of start demo "''C1''" "[''a'', ''c'']"]
  show ?thesis unfolding abc ac by simp
qed

section \<open>Search by name over pages\<close>

lemma scan_page_append:
  "scan_page name (xs @ ys) =
     (case scan_page name xs of Some c \<Rightarrow> Some c | None \<Rightarrow> scan_page name ys)"
  by (induction xs) auto

lemma GetChannelByName_loop_pages:
  "serves_pages (api svc) cursor pages (world s) \<Longrightarrow>
     \<exists>s'. GetChannelByName_loop svc name cursor s = Some (search_result name pages, s') \<and>
          calls s' = calls s @ page_events cursor (take (visited name pages) pages)"
proof (induction pages arbitrary: cursor s)
  case Nil
  then show ?case by simp
next
  case (Cons page rest)
  obtain channels nxt where page: "page = (channels, nxt)" by (cases page)
  from Cons.prems page obtain w' where
    get: "GetConversations (api svc) (GetConversations_params cursor) (world s) =
            (Inr (channels, nxt), w')"
    and more: "if rest = [] then nxt = [] else nxt \<noteq> [] \<and> serves_pages (api svc) nxt rest w'"
    by (auto split: prod.splits sum.splits)
  let ?s1 = "\<lparr>world = w', calls = calls s @
      [(GetConversations_call (GetConversations_params cursor), Channels_response channels nxt)]\<rparr>"
  have step: "api_GetConversations svc (GetConversations_params cursor) s =
      (Inr (channels, nxt), ?s1)"
    using get by (simp add: api_GetConversations_def perform_def channels_answer_def)
  show ?case
  proof (cases "scan_page name channels")
    case (Some channel)
    then show ?thesis
      using step page
      by (subst GetChannelByName_loop.simps)
         (simp add: search_result_def scan_page_append)
  next
    case None
    note miss = this
    show ?thesis
    proof (cases "rest = []")
      case True
      with more miss step page show ?thesis
        by (subst GetChannelByName_loop.simps) (simp add: search_result_def)
    next
      case False
      with more have nxt: "nxt \<noteq> []" and serves: "serves_pages (api svc) nxt rest (world ?s1)"
        by simp_all
      from Cons.IH [OF serves] obtain s' where
        r: "GetChannelByName_loop svc name nxt ?s1 = Some (search_result name rest, s')"
        and c: "calls s' = calls ?s1 @ page_events nxt (take (visited name rest) rest)"
        by (elim exE conjE)
      have res: "search_result name (page # rest) = search_result name rest"
        using miss page by (simp add: search_result_def scan_page_append)
      have "GetChannelByName_loop svc name cursor s = Some (search_result name rest, s')"
        using step miss nxt r by (subst GetChannelByName_loop.simps) simp
      with c res miss page show ?thesis by (intro exI [of _ s']) simp
    qed
  qed
qed


lemma visited_no_match:
  "scan_page name (concat (map fst pages)) = None \<Longrightarrow> visited name pages = length pages"
  by (induction pages) (auto simp: scan_page_append split: option.splits)

lemma later_cursors:
  "serves_pages cl cur pages w \<Longrightarrow> cur \<noteq> [] \<Longrightarrow>
     ev \<in> set (page_events cur (take n pages)) \<Longrightarrow> fst ev = GetConversations_call params \<Longrightarrow>
     CP_Cursor params \<noteq> []"
proof (induction pages arbitrary: cur w n)
  case Nil
  then show ?case by simp
next
  case (Cons page rest)
  obtain channels nxt where page: "page = (channels, nxt)" by (cases page)
  show ?case
  proof (cases n)
    case 0
    with Cons.prems show ?thesis by simp
  next
    case (Suc k)
    with Cons.prems(3) page consider
      (first) "ev = (GetConversations_call (GetConversations_params cur),
                     Channels_response channels nxt)"
      | (later) "ev \<in> set (page_events nxt (take k rest))"
      by auto
    then show ?thesis
    proof cases
      case first
      with Cons.prems(2,4) show ?thesis by (auto simp: GetConversations_params_def)
    next
      case later
      then have "rest \<noteq> []" by auto
      with Cons.prems(1) page obtain w' where "nxt \<noteq> []" "serves_pages cl nxt rest w'"
        by (auto split: prod.splits sum.splits)
      from Cons.IH [OF this(2,1) later Cons.prems(4)] show ?thesis .
    qed
  qed
qed

lemma resubmitted_cursors:
  assumes "serves_pages cl [] pages w"
    and "ev \<in> set (tl (page_events [] (take n pages)))"
    and "fst ev = GetConversations_call params"
  shows "CP_Cursor params \<noteq> []"
proof (cases pages)
  case Nil
  with assms show ?thesis by simp
next
  case (Cons page rest)
  obtain channels nxt where page: "page = (channels, nxt)" by (cases page)
  show ?thesis
  proof (cases n)
    case 0
    with assms show ?thesis by simp
  next
    case (Suc k)
    with assms(2) Cons page have later: "ev \<in> set (page_events nxt (take k rest))" by simp
    then have "rest \<noteq> []" by auto
    with assms(1) Cons page obtain w' where "nxt \<noteq> []" "serves_pages cl nxt rest w'"
      by (auto split: prod.splits sum.splits)
    from later_cursors [OF this(2,1) later assms(3)] show ?thesis .
  qed
qed

text \<open>
  C5, amended. When the platform serves a collection of pages, \<open>GetChannelByName\<close> returns
  (the loop ends). Its requests are those for the first pages of the collection, in cursor
  order and each once, up to and including the first page that holds a channel with the
  name; the pages behind that one are not requested. It returns the first channel with the
  name in page order. No request after the first carries the empty cursor. When no page
  holds a match, every page is requested exactly once and the result is the error built
  from \<open>ChannelAlreadyExistsError\<close>.
\<close>

theorem GetChannelByName_pages:
  assumes "serves_pages (api svc) [] pages (world s)"
  shows "\<exists>s'. GetChannelByName svc name s = Some (search_result name pages, s') \<and>
           issued s s' = page_events [] (take (visited name pages) pages) \<and>
           (\<forall>ev \<in> set (tl (issued s s')). \<forall>params.
              fst ev = GetConversations_call params \<longrightarrow> CP_Cursor params \<noteq> []) \<and>
           (scan_page name (concat (map fst pages)) = None \<longrightarrow>
              visited name pages = length pages)"
proof -
  from GetChannelByName_loop_pages [OF assms, of name] obtain s' where
    r: "GetChannelByName_loop svc name [] s = Some (search_result name pages, s')"
    and c: "calls s' = calls s @ page_events [] (take (visited name pages) pages)"
    by (elim exE conjE)
  from c have i: "issued s s' = page_events [] (take (visited name pages) pages)"
    by (rule issued_append)
  have "\<forall>ev \<in> set (tl (issued s s')). \<forall>params.
          fst ev = GetConversations_call params \<longrightarrow> CP_Cursor params \<noteq> []"
    unfolding i using resubmitted_cursors [OF assms] by blast
  with r i show ?thesis
    by (intro exI [of _ s']) (simp add: GetChannelByName_def visited_no_match)
qed

lemmas search_defs = GetChannelByName_def api_GetConversations_def channels_answer_def demo_defs
  GetConversations_params_def general_def random_def team_x_def demo_pages_def

text \<open>
  C5 as stated fails: the example collection has three pages, the channel \<open>general\<close> is on
  the first one, and the search makes one request only. The second and third page are
  never visited.
\<close>

theorem GetChannelByName_stops_at_match:
  "serves_pages (api demo) [] demo_pages (world start) \<and> length demo_pages = 3 \<and>
   GetChannelByName demo ''general'' start =
     Some (Inr general,
           \<lparr>world = (), calls = [(GetConversations_call (GetConversations_params []),
                                   Channels_response [general] ''p2'')]\<rparr>)"
  apply (simp add: GetChannelByName_def)
  apply (subst GetChannelByName_loop.simps)
  apply (simp add: search_defs)
  done

text \<open>
  \<open>team-x\<close> is on the second of the three pages; no channel is called \<open>nope\<close>.
\<close>

theorem GetChannelByName_pages_witness:
  "serves_pages (api demo) [] demo_pages (world start) \<and>
   (\<exists>s'. GetChannelByName demo ''team-x'' start = Some (Inr team_x, s') \<and>
      issued start s' =
        [(GetConversations_call (GetConversations_params []), Channels_response [general] ''p2''),
         (GetConversations_call (GetConversations_params ''p2''),
          Channels_response [random, team_x] ''p3'')]) \<and>
   scan_page ''nope'' (concat (map fst demo_pages)) = None \<and>
   (\<exists>s'. GetChannelByName demo ''nope'' start = Some (Inl (Errorf ChannelAlreadyExistsError), s') \<and>
      issued start s' =
        [(GetConversations_call (GetConversations_params []), Channels_response [general] ''p2''),
         (GetConversations_call (GetConversations_params ''p2''),
          Channels_response [random, team_x] ''p3''),
         (GetConversations_call (GetConversations_params ''p3''), Channels_response [] [])]) \<and>
   visited ''nope'' demo_pages = length demo_pages"
proof -
  have serves: "serves_pages (api demo) [] demo_pages (world start)"
    by (simp add: search_defs)
  have found: "search_result ''team-x'' demo_pages = Inr team_x"
    "visited ''team-x'' demo_pages = 2"
    by (simp_all add: search_result_def demo_pages_def general_def random_def team_x_def)
  have missing: "scan_page ''nope'' (concat (map fst demo_pages)) = None"
    "search_result ''nope'' demo_pages = Inl (Errorf ChannelAlreadyExistsError)"
    by (simp_all add: search_result_def demo_pages_def general_def random_def team_x_def)
  from GetChannelByName_pages [OF serves, of "''team-x''"]
  obtain s1 where one: "GetChannelByName demo ''team-x'' start = Some (Inr team_x, s1)"
    "issued start s1 = page_events [] (take 2 demo_pages)"
    unfolding found by (elim exE conjE)
  from GetChannelByName_pages [OF serves, of "''nope''"]
  obtain s2 where two: "GetChannelByName demo ''nope'' start =
      Some (Inl (Errorf ChannelAlreadyExistsError), s2)"
    "issued start s2 = page_events [] (take (visited ''nope'' demo_pages) demo_pages)"
    "visited ''nope'' demo_pages = length demo_pages"
    unfolding missing by (elim exE conjE) simp
  from two(2) have "issued start s2 = page_events [] demo_pages"
    unfolding two(3) by simp
  with serves missing(1) one two(1,3) show ?thesis
    by (simp add: demo_pages_def numeral_2_eq_2)
qed

section \<open>Listing the members\<close>

text \<open>
  C9. \<open>GetUsersInChannel\<close> makes one request and drops the cursor of the answer. The
  platform serves the members of channel \<open>C4\<close> in two pages, \<open>U1\<close> on the first and \<open>U2\<close>
  on the second (cursor \<open>p2\<close>): the function returns \<open>U1\<close> alone.
\<close>

theorem GetUsersInChannel_first_page_only:
  "GetUsersInChannel demo ''C4'' start =
     (Inr [''U1''],
      \<lparr>world = (), calls = [(list_call ''C4'', Users_response [''U1''] ''p2'')]\<rparr>) \<and>
   fst (GetUsersInConversation (api demo)
          \<lparr>UP_ChannelID = ''C4'', UP_Cursor = ''p2'', UP_Limit = 100000\<rparr> ()) =
     Inr ([''U2''], [])"
  by (simp add: GetUsersInChannel_def api_defs answer_defs demo_defs)

end
